theory Spec2Isabelle
  imports Complex_Main "HOL-Library.AList" "HOL-Library.Product_Lexorder" "HOL-Library.Word"
begin

section \<open>Shared data model\<close>

text \<open>
  A UUID is an opaque identifier: the code only compares UUIDs and prints them with
  \<^verbatim>\<open>str\<close>, which is injective. Python strings are character lists.
\<close>

type_synonym uuid = nat

subsection \<open>Provider overrides (services/orchestrator/app/models.py)\<close>

record ProviderOverride =
  po_name :: "string option"
  po_model :: "string option"
  po_temperature :: "real option"
  po_max_output_tokens :: "int option"
  po_json_mode :: "bool option"
  po_top_p :: "real option"
  po_reasoning_effort :: "string option"
  po_verbosity :: "string option"
  po_thinking_budget :: "int option"
  po_include_thoughts :: "bool option"

text \<open>
  Python's \<^verbatim>\<open>a or b\<close> on two optional strings: \<^verbatim>\<open>a\<close> when it is truthy
  (neither \<^verbatim>\<open>None\<close> nor the empty string), else \<^verbatim>\<open>b\<close>.
\<close>

fun str_or :: "string option \<Rightarrow> string option \<Rightarrow> string option" where
  "str_or None b = b"
| "str_or (Some s) b = (if s = [] then b else Some s)"

text \<open>
  \<^verbatim>\<open>x if x is not None else y\<close>.
\<close>

fun if_not_none :: "'a option \<Rightarrow> 'a option \<Rightarrow> 'a option" where
  "if_not_none None y = y"
| "if_not_none (Some v) y = Some v"

text \<open>
  \<^verbatim>\<open>_merge_overrides\<close> (flows.py 396-438; the same text is repeated in every stage
  engine, writing/engine.py 573-615 among them).
\<close>

fun merge_overrides ::
  "ProviderOverride option \<Rightarrow> ProviderOverride option \<Rightarrow> ProviderOverride option" where
  "merge_overrides None run_override = run_override"
| "merge_overrides (Some stage_override) None = Some stage_override"
| "merge_overrides (Some stage_override) (Some run_override) = Some \<lparr>
     po_name = str_or (po_name stage_override) (po_name run_override),
     po_model = str_or (po_model stage_override) (po_model run_override),
     po_temperature = if_not_none (po_temperature stage_override) (po_temperature run_override),
     po_max_output_tokens =
       if_not_none (po_max_output_tokens stage_override) (po_max_output_tokens run_override),
     po_json_mode = if_not_none (po_json_mode stage_override) (po_json_mode run_override),
     po_top_p = if_not_none (po_top_p stage_override) (po_top_p run_override),
     po_reasoning_effort =
       if_not_none (po_reasoning_effort stage_override) (po_reasoning_effort run_override),
     po_verbosity = if_not_none (po_verbosity stage_override) (po_verbosity run_override),
     po_thinking_budget =
       if_not_none (po_thinking_budget stage_override) (po_thinking_budget run_override),
     po_include_thoughts =
       if_not_none (po_include_thoughts stage_override) (po_include_thoughts run_override) \<rparr>"

text \<open>The override with every field unset, used in examples.\<close>

definition no_override :: ProviderOverride where
  "no_override = \<lparr> po_name = None, po_model = None, po_temperature = None,
     po_max_output_tokens = None, po_json_mode = None, po_top_p = None,
     po_reasoning_effort = None, po_verbosity = None, po_thinking_budget = None,
     po_include_thoughts = None \<rparr>"

subsection \<open>Budget gate (apps/api/app/main.py)\<close>





subsection \<open>Fact-mapping coverage (services/orchestrator/app/fact_mapping/engine.py)\<close>

text \<open>
  Of the schema models only the fields that \<^verbatim>\<open>_build_coverage\<close> and the last lines of
  \<^verbatim>\<open>generate_fact_mapping\<close> read or write are kept; \<open>fact_body\<close> and \<open>sub_title\<close> stand
  for the remaining content of a fact and of a subchapter.
\<close>

record Subchapter =
  sub_id :: uuid
  sub_title :: string

record Chapter =
  chapter_title :: string
  chapter_subchapters :: "Subchapter list"

record BookStructure =
  bs_project_id :: uuid
  bs_chapters :: "Chapter list"

record ResearchFact =
  fact_id :: uuid
  fact_subchapter_id :: uuid
  fact_body :: string

record SubchapterFactCoverage =
  cov_subchapter_id :: uuid
  cov_fact_count :: nat

record FactMappingBatch =
  fm_project_id :: uuid
  fm_facts :: "ResearchFact list"
  fm_coverage :: "SubchapterFactCoverage list"

text \<open>
  The first loop of \<^verbatim>\<open>_build_coverage\<close>:
  \<^verbatim>\<open>counts[key] = counts.get(key, 0) + 1\<close> for every fact. The dictionary is keyed by
  \<^verbatim>\<open>str(fact.subchapter_id)\<close>; as \<^verbatim>\<open>str\<close> is injective on UUIDs the model keys it
  by the id.
\<close>

fun count_facts :: "(uuid \<rightharpoonup> nat) \<Rightarrow> ResearchFact list \<Rightarrow> (uuid \<rightharpoonup> nat)" where
  "count_facts counts [] = counts"
| "count_facts counts (f # facts) =
     count_facts
       (counts(fact_subchapter_id f \<mapsto>
          (case counts (fact_subchapter_id f) of None \<Rightarrow> 0 | Some c \<Rightarrow> c) + 1))
       facts"

text \<open>The nested loop over chapters and their subchapters, appending one record each.\<close>

definition coverage_of_structure ::
  "(uuid \<rightharpoonup> nat) \<Rightarrow> BookStructure \<Rightarrow> SubchapterFactCoverage list" where
  "coverage_of_structure counts structure =
     concat (map (\<lambda>chapter.
        map (\<lambda>subchapter.
          \<lparr> cov_subchapter_id = sub_id subchapter,
            cov_fact_count = (case counts (sub_id subchapter) of None \<Rightarrow> 0 | Some c \<Rightarrow> c) \<rparr>)
          (chapter_subchapters chapter))
        (bs_chapters structure))"

definition build_coverage :: "BookStructure \<Rightarrow> FactMappingBatch \<Rightarrow> SubchapterFactCoverage list" where
  "build_coverage structure mapping =
     coverage_of_structure (count_facts Map.empty (fm_facts mapping)) structure"

text \<open>
  The end of \<^verbatim>\<open>generate_fact_mapping\<close> (110-117): \<open>final_mapping\<close> is the batch parsed
  from the implementer's response, coverage field included; the engine overwrites that
  field and returns the batch.
\<close>

definition finish_fact_mapping :: "BookStructure \<Rightarrow> FactMappingBatch \<Rightarrow> FactMappingBatch" where
  "finish_fact_mapping structure final_mapping =
     final_mapping \<lparr> fm_coverage := build_coverage structure final_mapping \<rparr>"

text \<open>The subchapters of a structure in document order.\<close>

definition structure_subchapters :: "BookStructure \<Rightarrow> Subchapter list" where
  "structure_subchapters structure = concat (map chapter_subchapters (bs_chapters structure))"

text \<open>
  An example: two chapters with the subchapters 1, 2 and 3, and a final mapping with two
  facts for subchapter 1, one for subchapter 3, one for a subchapter 9 that the structure
  does not have, and a coverage list of the model's own.
\<close>

definition example_structure :: BookStructure where
  "example_structure =
     \<lparr> bs_project_id = 5,
       bs_chapters =
         [\<lparr> chapter_title = ''Beginnings'',
            chapter_subchapters = [\<lparr> sub_id = 1, sub_title = ''Birth'' \<rparr>,
                                   \<lparr> sub_id = 2, sub_title = ''School'' \<rparr>] \<rparr>,
          \<lparr> chapter_title = ''Endings'',
            chapter_subchapters = [\<lparr> sub_id = 3, sub_title = ''Rest'' \<rparr>] \<rparr>] \<rparr>"

definition example_facts :: "ResearchFact list" where
  "example_facts =
     [\<lparr> fact_id = 11, fact_subchapter_id = 1, fact_body = ''born in 1900'' \<rparr>,
      \<lparr> fact_id = 12, fact_subchapter_id = 3, fact_body = ''retired in 1965'' \<rparr>,
      \<lparr> fact_id = 13, fact_subchapter_id = 1, fact_body = ''second of four children'' \<rparr>,
      \<lparr> fact_id = 14, fact_subchapter_id = 9, fact_body = ''unplaced'' \<rparr>]"

definition example_mapping :: FactMappingBatch where
  "example_mapping =
     \<lparr> fm_project_id = 5, fm_facts = example_facts,
       fm_coverage = [\<lparr> cov_subchapter_id = 1, cov_fact_count = 7 \<rparr>] \<rparr>"

subsection \<open>Schema models of the writing stage (\<^verbatim>\<open>book_creator_schemas\<close>)\<close>

datatype AgentRole =
    IDEA_GENERATOR
  | STRUCTURE_ARCHITECT | STRUCTURE_CRITIC_I | STRUCTURE_EDITOR_I | STRUCTURE_CRITIC_II
  | STRUCTURE_EDITOR_II | STRUCTURE_CRITIC_III | STRUCTURE_EDITOR_III
  | TITLER
  | PROMPT_ARCHITECT | PROMPT_CRITIC | PROMPT_FINALIZER
  | RESEARCH_INGESTOR | FACT_SELECTOR | FACT_CRITIC | FACT_IMPLEMENTER
  | EMOTION_AUTHOR | EMOTION_CRITIC | EMOTION_IMPLEMENTER
  | CREATIVE_DIRECTOR_ASSISTANT | CREATIVE_DIRECTOR_CRITIC | CREATIVE_DIRECTOR_FINAL
  | WRITER_INITIAL
  | WRITING_CRITIC_I | WRITING_IMPLEMENTATION_I
  | WRITING_CRITIC_II | WRITING_IMPLEMENTATION_II
  | WRITING_CRITIC_III | WRITING_IMPLEMENTATION_III

datatype CritiqueSeverity = INFO | WARNING | ERROR

text \<open>\<^verbatim>\<open>Literal["draft", "in_review", "ready"]\<close> and \<^verbatim>\<open>Literal["draft", "ready"]\<close>.\<close>

datatype subchapter_status = Status_draft | Status_in_review | Status_ready

datatype batch_readiness = Readiness_draft | Readiness_ready

text \<open>
  The timestamps (\<^verbatim>\<open>created_at\<close>, \<^verbatim>\<open>last_updated\<close>, \<^verbatim>\<open>updated_at\<close>) are left
  out of the records: they are wall-clock readings and nothing below depends on them.
\<close>

record DraftFeedbackItem =
  fb_id :: uuid
  fb_message :: string
  fb_severity :: CritiqueSeverity
  fb_category :: "string option"
  fb_rationale :: "string option"
  fb_addressed :: bool
  fb_addressed_in_iteration :: "uuid option"

record DraftIteration =
  it_id :: uuid
  it_project_id :: uuid
  it_subchapter_id :: uuid
  it_cycle :: nat
  it_role :: AgentRole
  it_content :: string
  it_summary :: "string option"
  it_word_count :: "nat option"
  it_feedback :: "DraftFeedbackItem list"

record SubchapterDraftState =
  st_subchapter_id :: uuid
  st_title :: string
  st_chapter_title :: "string option"
  st_order_label :: "string option"
  st_current_cycle :: nat
  st_status :: subchapter_status
  st_iterations :: "DraftIteration list"
  st_outstanding_feedback :: "DraftFeedbackItem list"
  st_final_iteration_id :: "uuid option"
  st_final_word_count :: "nat option"

record WritingBatch =
  wb_project_id :: uuid
  wb_cycle_count :: nat
  wb_readiness :: batch_readiness
  wb_summary :: "string option"
  wb_subchapters :: "SubchapterDraftState list"
  wb_total_word_count :: "nat option"

subsection \<open>Agent outputs of the writing stage (writing/engine.py 34-89)\<close>

text \<open>\<^verbatim>\<open>word_count\<close> is validated \<^verbatim>\<open>ge=0\<close> on input, hence a natural number.\<close>

record WriterDraftEntry =
  wd_subchapter_id :: uuid
  wd_content :: string
  wd_summary :: "string option"
  wd_word_count :: "nat option"

record WriterDraftBatch =
  wdb_subchapters :: "WriterDraftEntry list"
  wdb_overview :: "string option"

record CritiqueFeedback =
  cf_message :: string
  cf_severity :: CritiqueSeverity
  cf_category :: "string option"
  cf_rationale :: "string option"

record CritiqueEntry =
  ce_subchapter_id :: uuid
  ce_overview :: string
  ce_feedback :: "CritiqueFeedback list"

record CritiqueBatch =
  cb_subchapters :: "CritiqueEntry list"
  cb_summary :: "string option"

record ImplementationEntry =
  ie_subchapter_id :: uuid
  ie_content :: string
  ie_summary :: "string option"
  ie_word_count :: "nat option"
  ie_resolved_feedback :: "uuid list"
  ie_notes :: "string option"

record ImplementationBatch =
  ib_subchapters :: "ImplementationEntry list"
  ib_summary :: "string option"

subsection \<open>The writing payload\<close>

text \<open>
  The engine handles ids of the payload as text: \<^verbatim>\<open>str(item.get("id"))\<close> keys its
  dictionaries and \<^verbatim>\<open>UUID(str(...))\<close> parses it. A text is modelled by what the
  \<^verbatim>\<open>UUID\<close> constructor makes of it:
  \<^item> \<open>Canonical u\<close> is \<^verbatim>\<open>str(u)\<close>, the lower-case hyphenated form;
  \<^item> \<open>Alternate u s\<close> is another spelling \<open>s\<close> that the constructor accepts as \<open>u\<close>
    (upper case, braces, a urn prefix);
  \<^item> \<open>Unparsable s\<close> is a text \<open>s\<close> on which the constructor raises ValueError, such
    as the empty text or \<^verbatim>\<open>"None"\<close>, the text of a missing field.
\<close>

datatype id_text = Canonical uuid | Alternate uuid string | Unparsable string

fun uuid_of_text :: "id_text \<Rightarrow> uuid option" where
  "uuid_of_text (Canonical u) = Some u"
| "uuid_of_text (Alternate u s) = Some u"
| "uuid_of_text (Unparsable s) = None"

text \<open>\<^verbatim>\<open>not sub_id\<close>: the text is empty.\<close>

fun empty_text :: "id_text \<Rightarrow> bool" where
  "empty_text (Unparsable s) = (s = [])"
| "empty_text _ = False"

text \<open>
  An item of \<^verbatim>\<open>payload["subchapters"]\<close>. \<open>mi_id\<close> is the text
  \<^verbatim>\<open>str(item.get("id"))\<close>; \<open>None\<close> in the other fields is an absent key.
\<close>

record subchapter_meta_item =
  mi_id :: id_text
  mi_title :: "string option"
  mi_chapter_title :: "string option"
  mi_order_label :: "string option"
  mi_chapter_order :: "int option"
  mi_sub_order :: "int option"

text \<open>
  The fields of the payload that decide the control flow and the returned batch.
  \<open>wp_project_id\<close> is the text \<^verbatim>\<open>str(payload.get("project_id"))\<close>. Title, synopsis,
  guidelines, facts, persona, notes and the previous batch only flow into the prompts.
\<close>

record writing_payload =
  wp_project_id :: id_text
  wp_subchapters :: "subchapter_meta_item list"
  wp_cycle_count :: "int option"

text \<open>A value of \<^verbatim>\<open>meta_lookup\<close> (154-165).\<close>

record subchapter_meta =
  sm_title :: string
  sm_chapter_title :: "string option"
  sm_order_label :: "string option"
  sm_chapter_order :: int
  sm_sub_order :: int

subsection \<open>Errors, strings, validation\<close>

text \<open>
  The exceptions that end a writing run. \<open>ProviderCallError\<close> stands for whatever the
  provider call itself raises.
\<close>

datatype run_error =
  ProviderResponseError | ValidationError | KeyError | ValueError | IndexError | ProviderCallError

text \<open>\<^verbatim>\<open>str.isspace\<close> on the code points below 256, and \<^verbatim>\<open>str.strip()\<close>.\<close>

definition py_isspace :: "char \<Rightarrow> bool" where
  "py_isspace c = ((of_char c :: nat) \<in> {9, 10, 11, 12, 13, 28, 29, 30, 31, 32, 133, 160})"

definition strip :: "string \<Rightarrow> string" where
  "strip s = rev (dropWhile py_isspace (rev (dropWhile py_isspace s)))"

text \<open>Truthiness of an optional string: neither \<^verbatim>\<open>None\<close> nor empty.\<close>

fun truthy :: "string option \<Rightarrow> bool" where
  "truthy None = False"
| "truthy (Some s) = (s \<noteq> [])"

text \<open>\<^verbatim>\<open>sep.join(parts)\<close>.\<close>

fun join :: "string \<Rightarrow> string list \<Rightarrow> string" where
  "join sep [] = []"
| "join sep [x] = x"
| "join sep (x # y # ys) = x @ sep @ join sep (y # ys)"

text \<open>\<^verbatim>\<open>Field(None, max_length=n)\<close> on an optional string.\<close>

fun max_length_ok :: "nat \<Rightarrow> string option \<Rightarrow> bool" where
  "max_length_ok n None = True"
| "max_length_ok n (Some s) = (length s \<le> n)"

text \<open>
  The constructor of \<^verbatim>\<open>DraftFeedbackItem\<close> as the critic loop calls it (296-302):
  pydantic checks \<^verbatim>\<open>message\<close> (1 to 600 characters), \<^verbatim>\<open>category\<close> (at most 100) and
  \<^verbatim>\<open>rationale\<close> (at most 600); \<^verbatim>\<open>addressed\<close> and \<^verbatim>\<open>addressed_in_iteration\<close> take
  their defaults.
\<close>

definition new_DraftFeedbackItem ::
  "uuid \<Rightarrow> string \<Rightarrow> CritiqueSeverity \<Rightarrow> string option \<Rightarrow> string option
     \<Rightarrow> run_error + DraftFeedbackItem" where
  "new_DraftFeedbackItem ident msg sev cat rat =
     (if msg = [] \<or> length msg > 600 \<or> \<not> max_length_ok 100 cat \<or> \<not> max_length_ok 600 rat
      then Inl ValidationError
      else Inr \<lparr> fb_id = ident, fb_message = msg, fb_severity = sev, fb_category = cat,
                 fb_rationale = rat, fb_addressed = False, fb_addressed_in_iteration = None \<rparr>)"

text \<open>
  The constructor of \<^verbatim>\<open>DraftIteration\<close>: \<^verbatim>\<open>content\<close> has \<^verbatim>\<open>min_length=1\<close>,
  \<^verbatim>\<open>summary\<close> has \<^verbatim>\<open>max_length=600\<close>; the id comes from \<^verbatim>\<open>default_factory=uuid4\<close>.
\<close>

definition new_DraftIteration ::
  "uuid \<Rightarrow> uuid \<Rightarrow> uuid \<Rightarrow> nat \<Rightarrow> AgentRole \<Rightarrow> string \<Rightarrow> string option \<Rightarrow> nat option
     \<Rightarrow> DraftFeedbackItem list \<Rightarrow> run_error + DraftIteration" where
  "new_DraftIteration ident project sub cyc rl content summary wc fbs =
     (if content = [] \<or> \<not> max_length_ok 600 summary
      then Inl ValidationError
      else Inr \<lparr> it_id = ident, it_project_id = project, it_subchapter_id = sub, it_cycle = cyc,
                 it_role = rl, it_content = content, it_summary = summary, it_word_count = wc,
                 it_feedback = fbs \<rparr>)"

subsection \<open>Run-local state of \<^verbatim>\<open>generate_writing_batch\<close>\<close>

text \<open>
  \<^verbatim>\<open>uuid4()\<close> is modelled by a supply \<open>uuid4 :: nat \<Rightarrow> uuid\<close>, the sequence of values
  the calls of one run return, and a counter \<open>rs_next_uuid\<close> of the calls made so far.
  The four dictionaries are maps keyed by the id text.
\<close>

record run_state =
  rs_next_uuid :: nat
  rs_iterations_map :: "id_text \<rightharpoonup> DraftIteration list"
  rs_feedback_map :: "id_text \<rightharpoonup> DraftFeedbackItem list"
  rs_current_drafts :: "id_text \<rightharpoonup> string"
  rs_word_counts :: "id_text \<rightharpoonup> nat option"
  rs_summary_parts :: "string list"
  rs_critic_summaries :: "string list"

text \<open>A \<^verbatim>\<open>for\<close> loop whose body may raise: the first error ends the loop.\<close>

fun for_each :: "('a \<Rightarrow> 's \<Rightarrow> 'e + 's) \<Rightarrow> 'a list \<Rightarrow> 's \<Rightarrow> 'e + 's" where
  "for_each body [] s = Inr s"
| "for_each body (x # xs) s =
     (case body x s of Inl e \<Rightarrow> Inl e | Inr s' \<Rightarrow> for_each body xs s')"

subsection \<open>\<^verbatim>\<open>generate_writing_batch\<close>: set-up and writer pass\<close>

text \<open>
  Lines 126-130: \<^verbatim>\<open>UUID(str(raw_project_id))\<close>, and \<^verbatim>\<open>uuid4()\<close> when that raises.
  The result is the project id and the number of \<^verbatim>\<open>uuid4\<close> calls made.
\<close>

definition resolve_project_uuid :: "(nat \<Rightarrow> uuid) \<Rightarrow> id_text \<Rightarrow> uuid \<times> nat" where
  "resolve_project_uuid uuid4 raw =
     (case uuid_of_text raw of Some u \<Rightarrow> (u, 0) | None \<Rightarrow> (uuid4 0, 1))"

text \<open>
  Lines 143-144: \<^verbatim>\<open>int(payload.get("cycle_count") or 3)\<close> clamped to 1..3.
\<close>

definition resolve_cycle_count :: "int option \<Rightarrow> nat" where
  "resolve_cycle_count c =
     nat (max 1 (min 3 (case c of None \<Rightarrow> 3 | Some v \<Rightarrow> if v = 0 then 3 else v)))"

text \<open>
  Lines 154-165. \<^verbatim>\<open>meta_lookup\<close> is a dictionary: a key met again keeps its place and
  takes the new value, which is what \<open>AList.update\<close> does on an association list.
\<close>

definition meta_of_item :: "subchapter_meta_item \<Rightarrow> subchapter_meta" where
  "meta_of_item item =
     \<lparr> sm_title = (if truthy (mi_title item) then the (mi_title item)
                   else ''Untitled Subchapter''),
       sm_chapter_title = mi_chapter_title item,
       sm_order_label = mi_order_label item,
       sm_chapter_order = (case mi_chapter_order item of None \<Rightarrow> 0 | Some v \<Rightarrow> v),
       sm_sub_order = (case mi_sub_order item of None \<Rightarrow> 0 | Some v \<Rightarrow> v) \<rparr>"

fun build_meta_lookup ::
  "subchapter_meta_item list \<Rightarrow> (id_text \<times> subchapter_meta) list
     \<Rightarrow> (id_text \<times> subchapter_meta) list" where
  "build_meta_lookup [] acc = acc"
| "build_meta_lookup (item # items) acc =
     (if empty_text (mi_id item) then build_meta_lookup items acc
      else build_meta_lookup items (AList.update (mi_id item) (meta_of_item item) acc))"

text \<open>Line 186: \<^verbatim>\<open>meta_ids = set(meta_lookup.keys())\<close>, the requested subchapters.\<close>

definition meta_ids :: "(id_text \<times> subchapter_meta) list \<Rightarrow> id_text set" where
  "meta_ids meta_lookup = set (map fst meta_lookup)"

text \<open>
  Lines 186-188: \<^verbatim>\<open>missing = meta_ids - writer_ids\<close>, listed in the order of
  \<^verbatim>\<open>meta_lookup\<close>. The writer's ids are \<^verbatim>\<open>str(entry.subchapter_id)\<close>, canonical texts.
\<close>

definition writer_ids :: "WriterDraftBatch \<Rightarrow> id_text set" where
  "writer_ids writer_batch = set (map (\<lambda>e. Canonical (wd_subchapter_id e)) (wdb_subchapters writer_batch))"

definition missing_ids :: "(id_text \<times> subchapter_meta) list \<Rightarrow> WriterDraftBatch \<Rightarrow> id_text list" where
  "missing_ids meta_lookup writer_batch =
     filter (\<lambda>k. k \<notin> writer_ids writer_batch) (map fst meta_lookup)"

text \<open>Lines 195-199: the dictionaries before the writer loop.\<close>

definition initial_state :: "nat \<Rightarrow> (id_text \<times> subchapter_meta) list \<Rightarrow> run_state" where
  "initial_state n meta_lookup =
     \<lparr> rs_next_uuid = n,
       rs_iterations_map = map_of (map (\<lambda>(k, m). (k, [])) meta_lookup),
       rs_feedback_map = map_of (map (\<lambda>(k, m). (k, [])) meta_lookup),
       rs_current_drafts = Map.empty,
       rs_word_counts = Map.empty,
       rs_summary_parts = [],
       rs_critic_summaries = [] \<rparr>"

text \<open>
  The body of the writer loop (205-219). The iteration is built first (validation, one
  \<^verbatim>\<open>uuid4\<close> call); \<^verbatim>\<open>iterations_map[sub_id]\<close> raises KeyError for an id outside
  \<^verbatim>\<open>meta_lookup\<close>.
\<close>

definition writer_entry ::
  "(nat \<Rightarrow> uuid) \<Rightarrow> uuid \<Rightarrow> WriterDraftEntry \<Rightarrow> run_state \<Rightarrow> run_error + run_state" where
  "writer_entry uuid4 project_uuid entry st =
     (let sub = Canonical (wd_subchapter_id entry) in
      case new_DraftIteration (uuid4 (rs_next_uuid st)) project_uuid (wd_subchapter_id entry) 0
             WRITER_INITIAL (strip (wd_content entry)) (wd_summary entry) (wd_word_count entry) []
      of Inl e \<Rightarrow> Inl e
       | Inr iteration \<Rightarrow>
          (case rs_iterations_map st sub of
             None \<Rightarrow> Inl KeyError
           | Some its \<Rightarrow>
               Inr (st \<lparr> rs_next_uuid := Suc (rs_next_uuid st),
                         rs_iterations_map := (rs_iterations_map st)(sub \<mapsto> its @ [iteration]),
                         rs_current_drafts := (rs_current_drafts st)(sub \<mapsto> wd_content entry),
                         rs_word_counts := (rs_word_counts st)(sub \<mapsto> wd_word_count entry) \<rparr>)))"

text \<open>Lines 205-222: the writer loop, then the overview joins \<^verbatim>\<open>summary_parts\<close>.\<close>

definition writer_pass ::
  "(nat \<Rightarrow> uuid) \<Rightarrow> uuid \<Rightarrow> WriterDraftBatch \<Rightarrow> run_state \<Rightarrow> run_error + run_state" where
  "writer_pass uuid4 project_uuid writer_batch st =
     (case for_each (writer_entry uuid4 project_uuid) (wdb_subchapters writer_batch) st of
        Inl e \<Rightarrow> Inl e
      | Inr st1 \<Rightarrow>
          Inr (if truthy (wdb_overview writer_batch)
               then st1 \<lparr> rs_summary_parts :=
                            rs_summary_parts st1 @ [strip (the (wdb_overview writer_batch))] \<rparr>
               else st1))"

subsection \<open>Critic pass\<close>

definition critic_roles :: "AgentRole list" where
  "critic_roles = [WRITING_CRITIC_I, WRITING_CRITIC_II, WRITING_CRITIC_III]"

definition implement_roles :: "AgentRole list" where
  "implement_roles =
     [WRITING_IMPLEMENTATION_I, WRITING_IMPLEMENTATION_II, WRITING_IMPLEMENTATION_III]"

text \<open>
  The inner loop of the critic pass (295-304), one feedback at a time: the item gets
  \<^verbatim>\<open>id=uuid4()\<close>, is appended to \<^verbatim>\<open>feedback_map[sub_id]\<close> (KeyError for an unknown
  id) and a copy goes to \<^verbatim>\<open>new_feedback\<close>. The loop state is the run state with
  \<^verbatim>\<open>new_feedback\<close>.
\<close>

definition add_feedback ::
  "(nat \<Rightarrow> uuid) \<Rightarrow> id_text \<Rightarrow> CritiqueFeedback
     \<Rightarrow> run_state \<times> DraftFeedbackItem list \<Rightarrow> run_error + run_state \<times> DraftFeedbackItem list" where
  "add_feedback uuid4 sub feedback acc =
     (case acc of (st, new_feedback) \<Rightarrow>
      case new_DraftFeedbackItem (uuid4 (rs_next_uuid st)) (strip (cf_message feedback))
             (cf_severity feedback) (cf_category feedback) (cf_rationale feedback)
      of Inl e \<Rightarrow> Inl e
       | Inr feedback_item \<Rightarrow>
          (case rs_feedback_map st sub of
             None \<Rightarrow> Inl KeyError
           | Some fbs \<Rightarrow>
               Inr (st \<lparr> rs_next_uuid := Suc (rs_next_uuid st),
                         rs_feedback_map := (rs_feedback_map st)(sub \<mapsto> fbs @ [feedback_item]) \<rparr>,
                    new_feedback @ [feedback_item])))"

text \<open>The body of the critic loop (292-317).\<close>

definition critic_entry ::
  "(nat \<Rightarrow> uuid) \<Rightarrow> uuid \<Rightarrow> nat \<Rightarrow> AgentRole \<Rightarrow> CritiqueEntry \<Rightarrow> run_state
     \<Rightarrow> run_error + run_state" where
  "critic_entry uuid4 project_uuid cycle_index critic_role entry st =
     (let sub = Canonical (ce_subchapter_id entry) in
      case for_each (add_feedback uuid4 sub) (ce_feedback entry) (st, []) of
        Inl e \<Rightarrow> Inl e
      | Inr (st1, new_feedback) \<Rightarrow>
          (case new_DraftIteration (uuid4 (rs_next_uuid st1)) project_uuid
                  (ce_subchapter_id entry) cycle_index critic_role (strip (ce_overview entry))
                  None None new_feedback
           of Inl e \<Rightarrow> Inl e
            | Inr critic_iteration \<Rightarrow>
               (case rs_iterations_map st1 sub of
                  None \<Rightarrow> Inl KeyError
                | Some its \<Rightarrow>
                    Inr (st1 \<lparr> rs_next_uuid := Suc (rs_next_uuid st1),
                               rs_iterations_map :=
                                 (rs_iterations_map st1)(sub \<mapsto> its @ [critic_iteration]) \<rparr>))))"

text \<open>
  Lines 292-322: the critic loop, then the batch summary, when truthy, becomes one more
  entry of \<^verbatim>\<open>critic_summaries\<close>.
\<close>

definition critic_pass ::
  "(nat \<Rightarrow> uuid) \<Rightarrow> uuid \<Rightarrow> nat \<Rightarrow> AgentRole \<Rightarrow> CritiqueBatch \<Rightarrow> run_state
     \<Rightarrow> run_error + run_state" where
  "critic_pass uuid4 project_uuid cycle_index critic_role critic_batch st =
     (case for_each (critic_entry uuid4 project_uuid cycle_index critic_role)
             (cb_subchapters critic_batch) st of
        Inl e \<Rightarrow> Inl e
      | Inr st1 \<Rightarrow>
          Inr (if truthy (cb_summary critic_batch)
               then st1 \<lparr> rs_critic_summaries :=
                            rs_critic_summaries st1 @ [strip (the (cb_summary critic_batch))] \<rparr>
               else st1))"

subsection \<open>Implementer pass\<close>

text \<open>
  Lines 361-367. The separator of the source text is a space, three characters (a
  wrongly decoded dash) and \<^verbatim>\<open>" Notes: "\<close>.
\<close>

definition notes_separator :: string where
  "notes_separator = [CHR '' '', CHR 0xE2, CHR 0x80, CHR 0x94] @ '' Notes: ''"

definition iteration_summary_of :: "ImplementationEntry \<Rightarrow> string option" where
  "iteration_summary_of entry =
     (let iteration_summary =
            (if truthy (ie_summary entry) then Some (strip (the (ie_summary entry))) else None)
      in if truthy (ie_notes entry)
         then (let notes_text = strip (the (ie_notes entry))
               in if truthy iteration_summary
                  then Some (the iteration_summary @ notes_separator @ notes_text)
                  else Some (''Notes: '' @ notes_text))
         else iteration_summary)"

text \<open>
  Lines 373-377: every item whose id is among the resolved ids is marked addressed and its
  \<^verbatim>\<open>addressed_in_iteration\<close> is set to \<^verbatim>\<open>None\<close>, whatever it held.
\<close>

definition mark_resolved :: "uuid list \<Rightarrow> DraftFeedbackItem \<Rightarrow> DraftFeedbackItem" where
  "mark_resolved resolved_ids feedback =
     (if fb_id feedback \<in> set resolved_ids
      then feedback \<lparr> fb_addressed := True, fb_addressed_in_iteration := None \<rparr>
      else feedback)"

text \<open>
  Lines 389-391: every addressed item without an iteration takes the id of the
  implementer's iteration.
\<close>

definition stamp_iteration :: "uuid \<Rightarrow> DraftFeedbackItem \<Rightarrow> DraftFeedbackItem" where
  "stamp_iteration iteration_id feedback =
     (if fb_addressed feedback \<and> fb_addressed_in_iteration feedback = None
      then feedback \<lparr> fb_addressed_in_iteration := Some iteration_id \<rparr>
      else feedback)"

text \<open>
  The body of the implementer loop (357-401). \<^verbatim>\<open>current_drafts\<close> and
  \<^verbatim>\<open>word_counts\<close> are written before \<^verbatim>\<open>feedback_map[sub_id]\<close> can raise KeyError;
  \<^verbatim>\<open>model_copy(update=...)\<close> keeps the id of the iteration and attaches the snapshot.
\<close>

definition implement_entry ::
  "(nat \<Rightarrow> uuid) \<Rightarrow> uuid \<Rightarrow> nat \<Rightarrow> AgentRole \<Rightarrow> ImplementationEntry \<Rightarrow> run_state
     \<Rightarrow> run_error + run_state" where
  "implement_entry uuid4 project_uuid cycle_index implement_role entry st =
     (let sub = Canonical (ie_subchapter_id entry);
          st1 = st \<lparr> rs_current_drafts := (rs_current_drafts st)(sub \<mapsto> ie_content entry),
                     rs_word_counts := (rs_word_counts st)(sub \<mapsto> ie_word_count entry) \<rparr>
      in case rs_feedback_map st1 sub of
           None \<Rightarrow> Inl KeyError
         | Some fbs \<Rightarrow>
            (let marked = map (mark_resolved (ie_resolved_feedback entry)) fbs in
             case new_DraftIteration (uuid4 (rs_next_uuid st1)) project_uuid
                    (ie_subchapter_id entry) cycle_index implement_role (strip (ie_content entry))
                    (iteration_summary_of entry) (ie_word_count entry) []
             of Inl e \<Rightarrow> Inl e
              | Inr implementation_iteration \<Rightarrow>
                 (let stamped = map (stamp_iteration (it_id implementation_iteration)) marked;
                      recorded = implementation_iteration \<lparr> it_feedback := stamped \<rparr>
                  in case rs_iterations_map st1 sub of
                       None \<Rightarrow> Inl KeyError
                     | Some its \<Rightarrow>
                         Inr (st1 \<lparr> rs_next_uuid := Suc (rs_next_uuid st1),
                                    rs_feedback_map := (rs_feedback_map st1)(sub \<mapsto> stamped),
                                    rs_iterations_map :=
                                      (rs_iterations_map st1)(sub \<mapsto> its @ [recorded]) \<rparr>))))"

definition implement_pass ::
  "(nat \<Rightarrow> uuid) \<Rightarrow> uuid \<Rightarrow> nat \<Rightarrow> AgentRole \<Rightarrow> ImplementationBatch \<Rightarrow> run_state
     \<Rightarrow> run_error + run_state" where
  "implement_pass uuid4 project_uuid cycle_index implement_role implementation_batch st =
     (case for_each (implement_entry uuid4 project_uuid cycle_index implement_role)
             (ib_subchapters implementation_batch) st of
        Inl e \<Rightarrow> Inl e
      | Inr st1 \<Rightarrow>
          Inr (if truthy (ib_summary implementation_batch)
               then st1 \<lparr> rs_summary_parts :=
                            rs_summary_parts st1 @ [strip (the (ib_summary implementation_batch))] \<rparr>
               else st1))"

subsection \<open>The cycle loop\<close>

text \<open>
  One turn of the loop at 235-404. The provider's answers are inputs of the model:
  \<open>critic_response\<close> and \<open>implement_response\<close> are what the request and the parse of
  this cycle yield, an error or the parsed batch. The implementer is only called once the
  critic pass has gone through.
\<close>

definition run_cycle ::
  "(nat \<Rightarrow> uuid) \<Rightarrow> uuid \<Rightarrow> nat \<Rightarrow> run_error + CritiqueBatch \<Rightarrow> run_error + ImplementationBatch
     \<Rightarrow> run_state \<Rightarrow> run_error + run_state" where
  "run_cycle uuid4 project_uuid cycle_index critic_response implement_response st =
     (if cycle_index \<ge> length critic_roles then Inl IndexError
      else case critic_response of
        Inl e \<Rightarrow> Inl e
      | Inr critic_batch \<Rightarrow>
         (case critic_pass uuid4 project_uuid cycle_index (critic_roles ! cycle_index)
                 critic_batch st of
            Inl e \<Rightarrow> Inl e
          | Inr st1 \<Rightarrow>
             (case implement_response of
                Inl e \<Rightarrow> Inl e
              | Inr implementation_batch \<Rightarrow>
                  implement_pass uuid4 project_uuid cycle_index (implement_roles ! cycle_index)
                    implementation_batch st1)))"

text \<open>
  \<^verbatim>\<open>for cycle_index in range(cycle_count)\<close>, written from a starting index so that any
  remainder of the loop is again an instance: \<open>run_cycles ... i n\<close> runs the cycles
  \<open>i, ..., i + n - 1\<close>.
\<close>

fun run_cycles ::
  "(nat \<Rightarrow> uuid) \<Rightarrow> uuid \<Rightarrow> (nat \<Rightarrow> run_error + CritiqueBatch)
     \<Rightarrow> (nat \<Rightarrow> run_error + ImplementationBatch) \<Rightarrow> nat \<Rightarrow> nat \<Rightarrow> run_state
     \<Rightarrow> run_error + run_state" where
  "run_cycles uuid4 project_uuid critics implementers i 0 st = Inr st"
| "run_cycles uuid4 project_uuid critics implementers i (Suc n) st =
     (case run_cycle uuid4 project_uuid i (critics i) (implementers i) st of
        Inl e \<Rightarrow> Inl e
      | Inr st1 \<Rightarrow> run_cycles uuid4 project_uuid critics implementers (Suc i) n st1)"

subsection \<open>Building the batch\<close>

text \<open>
  Lines 406-409: \<^verbatim>\<open>sorted\<close> is stable, as \<open>sort_key\<close> is; the key is the pair
  \<^verbatim>\<open>(chapter_order, sub_order)\<close> in lexicographic order.
\<close>

definition sorted_meta :: "(id_text \<times> subchapter_meta) list \<Rightarrow> (id_text \<times> subchapter_meta) list" where
  "sorted_meta meta_lookup =
     sort_key (\<lambda>item. (sm_chapter_order (snd item), sm_sub_order (snd item))) meta_lookup"

text \<open>
  The constructor of \<^verbatim>\<open>SubchapterDraftState\<close>: \<^verbatim>\<open>title\<close> has 1 to 200 characters,
  \<^verbatim>\<open>chapter_title\<close> at most 200.
\<close>

definition new_SubchapterDraftState ::
  "uuid \<Rightarrow> string \<Rightarrow> string option \<Rightarrow> string option \<Rightarrow> nat \<Rightarrow> subchapter_status
     \<Rightarrow> DraftIteration list \<Rightarrow> DraftFeedbackItem list \<Rightarrow> uuid option \<Rightarrow> nat option
     \<Rightarrow> run_error + SubchapterDraftState" where
  "new_SubchapterDraftState sub title chapter label cyc status iterations outstanding final_id final_wc =
     (if title = [] \<or> length title > 200 \<or> \<not> max_length_ok 200 chapter
      then Inl ValidationError
      else Inr \<lparr> st_subchapter_id = sub, st_title = title, st_chapter_title = chapter,
                 st_order_label = label, st_current_cycle = cyc, st_status = status,
                 st_iterations = iterations, st_outstanding_feedback = outstanding,
                 st_final_iteration_id = final_id, st_final_word_count = final_wc \<rparr>)"

text \<open>Lines 423-425.\<close>

definition derive_status :: "DraftIteration list \<Rightarrow> DraftFeedbackItem list \<Rightarrow> subchapter_status" where
  "derive_status iterations outstanding_feedback =
     (let status = (if outstanding_feedback = [] then Status_ready else Status_in_review)
      in if iterations = [] then Status_draft else status)"

text \<open>
  The body of the loop at 413-446. The loop state is the list of states built so far
  with the running \<^verbatim>\<open>total_word_count\<close>.
\<close>

definition subchapter_state ::
  "run_state \<Rightarrow> id_text \<times> subchapter_meta \<Rightarrow> SubchapterDraftState list \<times> nat
     \<Rightarrow> run_error + SubchapterDraftState list \<times> nat" where
  "subchapter_state st item acc =
     (case acc of (subchapter_states, total_word_count) \<Rightarrow>
      case item of (sub, meta) \<Rightarrow>
      case rs_iterations_map st sub of
        None \<Rightarrow> Inl KeyError
      | Some iterations \<Rightarrow>
         (case rs_feedback_map st sub of
            None \<Rightarrow> Inl KeyError
          | Some all_feedback \<Rightarrow>
             (let outstanding_feedback = filter (\<lambda>i. \<not> fb_addressed i) all_feedback;
                  final_word_count = (case rs_word_counts st sub of None \<Rightarrow> None | Some w \<Rightarrow> w);
                  word_total = (case final_word_count of
                             None \<Rightarrow> total_word_count
                           | Some n \<Rightarrow> if n \<noteq> 0 then total_word_count + n else total_word_count);
                  status = derive_status iterations outstanding_feedback;
                  current_cycle = fold max (map it_cycle iterations) 0;
                  final_iteration_id =
                    (if iterations = [] then None else Some (it_id (last iterations)))
              in case uuid_of_text sub of
                   None \<Rightarrow> Inl ValueError
                 | Some sub_uuid \<Rightarrow>
                    (case new_SubchapterDraftState sub_uuid (sm_title meta) (sm_chapter_title meta)
                            (sm_order_label meta) current_cycle status iterations
                            outstanding_feedback final_iteration_id final_word_count
                     of Inl e \<Rightarrow> Inl e
                      | Inr state \<Rightarrow> Inr (subchapter_states @ [state], word_total)))))"

text \<open>
  \<^verbatim>\<open>WritingResult\<close> without \<^verbatim>\<open>cost_usd\<close>, a floating-point sum over the responses
  that no property below reads.
\<close>

record WritingResult =
  wr_batch :: WritingBatch
  wr_critique :: "string option"

text \<open>Lines 406-470. \<^verbatim>\<open>WritingBatch\<close> limits \<^verbatim>\<open>summary\<close> to 2000 characters.\<close>

definition finalise ::
  "uuid \<Rightarrow> nat \<Rightarrow> (id_text \<times> subchapter_meta) list \<Rightarrow> run_state \<Rightarrow> run_error + WritingResult" where
  "finalise project_uuid cycle_count meta_lookup st =
     (case for_each (subchapter_state st) (sorted_meta meta_lookup) ([], 0) of
        Inl e \<Rightarrow> Inl e
      | Inr (subchapter_states, word_total) \<Rightarrow>
         (let readiness = (if list_all (\<lambda>state. st_status state = Status_ready) subchapter_states
                           then Readiness_ready else Readiness_draft);
              total_word_count = (if word_total = 0 then None else Some word_total);
              summary_text = join [CHR 0x0A, CHR 0x0A] (filter (\<lambda>part. part \<noteq> []) (rs_summary_parts st));
              critique_text = join [CHR 0x0A, CHR 0x0A] (filter (\<lambda>part. part \<noteq> []) (rs_critic_summaries st));
              summary = (if summary_text = [] then None else Some summary_text)
          in if \<not> max_length_ok 2000 summary then Inl ValidationError
             else Inr \<lparr> wr_batch =
                          \<lparr> wb_project_id = project_uuid, wb_cycle_count = cycle_count,
                            wb_readiness = readiness, wb_summary = summary,
                            wb_subchapters = subchapter_states,
                            wb_total_word_count = total_word_count \<rparr>,
                        wr_critique = (if critique_text = [] then None else Some critique_text) \<rparr>))"

subsection \<open>\<^verbatim>\<open>generate_writing_batch\<close>\<close>

text \<open>
  The run up to the end of the cycle loop (113-404): the project id, the cycle count,
  \<^verbatim>\<open>meta_lookup\<close> and the run state that the last part of the function reads.
  \<open>writer_response\<close>, \<open>critics i\<close> and \<open>implementers i\<close> are the outcomes of the
  provider requests with their parses: \<open>Inl\<close> when the call, the JSON decoding
  (ProviderResponseError) or the validation of the answer raises, else the parsed batch.
\<close>

definition writing_passes ::
  "(nat \<Rightarrow> uuid) \<Rightarrow> writing_payload \<Rightarrow> run_error + WriterDraftBatch
     \<Rightarrow> (nat \<Rightarrow> run_error + CritiqueBatch) \<Rightarrow> (nat \<Rightarrow> run_error + ImplementationBatch)
     \<Rightarrow> run_error + uuid \<times> nat \<times> (id_text \<times> subchapter_meta) list \<times> run_state" where
  "writing_passes uuid4 payload writer_response critics implementers =
     (case resolve_project_uuid uuid4 (wp_project_id payload) of (project_uuid, drawn) \<Rightarrow>
      let cycle_count = resolve_cycle_count (wp_cycle_count payload);
          meta_lookup = build_meta_lookup (wp_subchapters payload) []
      in case writer_response of
           Inl e \<Rightarrow> Inl e
         | Inr writer_batch \<Rightarrow>
            if missing_ids meta_lookup writer_batch \<noteq> [] then Inl ProviderResponseError
            else (case writer_pass uuid4 project_uuid writer_batch (initial_state drawn meta_lookup) of
                    Inl e \<Rightarrow> Inl e
                  | Inr st0 \<Rightarrow>
                     (case run_cycles uuid4 project_uuid critics implementers 0 cycle_count st0 of
                        Inl e \<Rightarrow> Inl e
                      | Inr st1 \<Rightarrow> Inr (project_uuid, cycle_count, meta_lookup, st1))))"

definition generate_writing_batch ::
  "(nat \<Rightarrow> uuid) \<Rightarrow> writing_payload \<Rightarrow> run_error + WriterDraftBatch
     \<Rightarrow> (nat \<Rightarrow> run_error + CritiqueBatch) \<Rightarrow> (nat \<Rightarrow> run_error + ImplementationBatch)
     \<Rightarrow> run_error + WritingResult" where
  "generate_writing_batch uuid4 payload writer_response critics implementers =
     (case writing_passes uuid4 payload writer_response critics implementers of
        Inl e \<Rightarrow> Inl e
      | Inr (project_uuid, cycle_count, meta_lookup, st) \<Rightarrow>
          finalise project_uuid cycle_count meta_lookup st)"

subsection \<open>What a returned subchapter state is compared with\<close>

text \<open>
  \<open>state_matches st item state\<close>: the subchapter state carries the iterations of its
  subchapter in the run state \<open>st\<close>, the unaddressed part of its feedback list, its last
  recorded word count, and the status that the claims describe.
\<close>

definition state_matches ::
  "run_state \<Rightarrow> id_text \<times> subchapter_meta \<Rightarrow> SubchapterDraftState \<Rightarrow> bool" where
  "state_matches st item state =
     (\<exists>iterations all_feedback.
        rs_iterations_map st (fst item) = Some iterations \<and>
        rs_feedback_map st (fst item) = Some all_feedback \<and>
        st_iterations state = iterations \<and>
        st_outstanding_feedback state = filter (\<lambda>i. \<not> fb_addressed i) all_feedback \<and>
        st_final_word_count state =
          (case rs_word_counts st (fst item) of None \<Rightarrow> None | Some w \<Rightarrow> w) \<and>
        st_status state =
          (if iterations \<noteq> [] \<and> list_all fb_addressed all_feedback then Status_ready
           else if iterations \<noteq> [] then Status_in_review
           else Status_draft))"

subsection \<open>Example runs\<close>

text \<open>
  One subchapter, one critic remark per cycle. The supply \<open>counting_uuid4\<close> hands out
  0, 1, 2, ...; the payload has no project id, so the first value becomes the project id,
  the writer's iteration gets 1 and the first feedback item gets 2.
\<close>

definition counting_uuid4 :: "nat \<Rightarrow> uuid" where
  "counting_uuid4 n = n"

definition example_payload :: "int \<Rightarrow> writing_payload" where
  "example_payload cycles =
     \<lparr> wp_project_id = Unparsable ''None'',
       wp_subchapters =
         [\<lparr> mi_id = Canonical 100, mi_title = Some ''Origins'', mi_chapter_title = None,
            mi_order_label = None, mi_chapter_order = Some 1, mi_sub_order = Some 1 \<rparr>],
       wp_cycle_count = Some cycles \<rparr>"

definition example_writer_batch :: WriterDraftBatch where
  "example_writer_batch =
     \<lparr> wdb_subchapters =
         [\<lparr> wd_subchapter_id = 100, wd_content = ''draft'', wd_summary = None,
            wd_word_count = Some 0 \<rparr>],
       wdb_overview = None \<rparr>"

definition example_critique_batch :: CritiqueBatch where
  "example_critique_batch =
     \<lparr> cb_subchapters =
         [\<lparr> ce_subchapter_id = 100, ce_overview = ''weak hook'',
            ce_feedback = [\<lparr> cf_message = ''add hook'', cf_severity = WARNING,
                             cf_category = None, cf_rationale = None \<rparr>] \<rparr>],
       cb_summary = None \<rparr>"

definition example_implementation_batch :: "uuid list \<Rightarrow> nat \<Rightarrow> ImplementationBatch" where
  "example_implementation_batch resolved wc =
     \<lparr> ib_subchapters =
         [\<lparr> ie_subchapter_id = 100, ie_content = ''revised'', ie_summary = None,
            ie_word_count = Some wc, ie_resolved_feedback = resolved, ie_notes = None \<rparr>],
       ib_summary = None \<rparr>"

definition example_critics :: "nat \<Rightarrow> run_error + CritiqueBatch" where
  "example_critics i = Inr example_critique_batch"

text \<open>An implementer that reports feedback item 2 as resolved in every cycle.\<close>

definition example_implementers :: "nat \<Rightarrow> run_error + ImplementationBatch" where
  "example_implementers i = Inr (example_implementation_batch [2] 0)"

text \<open>An implementer that resolves nothing and reports 315 words.\<close>

definition idle_implementers :: "nat \<Rightarrow> run_error + ImplementationBatch" where
  "idle_implementers i = Inr (example_implementation_batch [] 315)"

definition example_writer_iteration :: DraftIteration where
  "example_writer_iteration =
     \<lparr> it_id = 1, it_project_id = 0, it_subchapter_id = 100, it_cycle = 0,
       it_role = WRITER_INITIAL, it_content = ''draft'', it_summary = None,
       it_word_count = Some 0, it_feedback = [] \<rparr>"

definition example_feedback :: "uuid \<Rightarrow> bool \<Rightarrow> uuid option \<Rightarrow> DraftFeedbackItem" where
  "example_feedback ident addressed iteration =
     \<lparr> fb_id = ident, fb_message = ''add hook'', fb_severity = WARNING, fb_category = None,
       fb_rationale = None, fb_addressed = addressed, fb_addressed_in_iteration = iteration \<rparr>"

definition example_critic_iteration :: "uuid \<Rightarrow> nat \<Rightarrow> AgentRole \<Rightarrow> uuid \<Rightarrow> DraftIteration" where
  "example_critic_iteration ident cyc rl feedback_ident =
     \<lparr> it_id = ident, it_project_id = 0, it_subchapter_id = 100, it_cycle = cyc,
       it_role = rl, it_content = ''weak hook'', it_summary = None, it_word_count = None,
       it_feedback = [example_feedback feedback_ident False None] \<rparr>"

definition example_implementer_iteration ::
  "uuid \<Rightarrow> nat \<Rightarrow> AgentRole \<Rightarrow> nat \<Rightarrow> DraftFeedbackItem list \<Rightarrow> DraftIteration" where
  "example_implementer_iteration ident cyc rl wc snapshot =
     \<lparr> it_id = ident, it_project_id = 0, it_subchapter_id = 100, it_cycle = cyc,
       it_role = rl, it_content = ''revised'', it_summary = None, it_word_count = Some wc,
       it_feedback = snapshot \<rparr>"

text \<open>The result of one cycle with the resolving implementer.\<close>

definition example_result :: WritingResult where
  "example_result =
     \<lparr> wr_batch =
         \<lparr> wb_project_id = 0, wb_cycle_count = 1, wb_readiness = Readiness_ready,
           wb_summary = None,
           wb_subchapters =
             [\<lparr> st_subchapter_id = 100, st_title = ''Origins'', st_chapter_title = None,
                st_order_label = None, st_current_cycle = 0, st_status = Status_ready,
                st_iterations =
                  [example_writer_iteration,
                   example_critic_iteration 3 0 WRITING_CRITIC_I 2,
                   example_implementer_iteration 4 0 WRITING_IMPLEMENTATION_I 0
                     [example_feedback 2 True (Some 4)]],
                st_outstanding_feedback = [],
                st_final_iteration_id = Some 4,
                st_final_word_count = Some 0 \<rparr>],
           wb_total_word_count = None \<rparr>,
       wr_critique = None \<rparr>"

text \<open>The result of one cycle with the idle implementer.\<close>

definition idle_result :: WritingResult where
  "idle_result =
     \<lparr> wr_batch =
         \<lparr> wb_project_id = 0, wb_cycle_count = 1, wb_readiness = Readiness_draft,
           wb_summary = None,
           wb_subchapters =
             [\<lparr> st_subchapter_id = 100, st_title = ''Origins'', st_chapter_title = None,
                st_order_label = None, st_current_cycle = 0, st_status = Status_in_review,
                st_iterations =
                  [example_writer_iteration,
                   example_critic_iteration 3 0 WRITING_CRITIC_I 2,
                   example_implementer_iteration 4 0 WRITING_IMPLEMENTATION_I 315
                     [example_feedback 2 False None]],
                st_outstanding_feedback = [example_feedback 2 False None],
                st_final_iteration_id = Some 4,
                st_final_word_count = Some 315 \<rparr>],
           wb_total_word_count = Some 315 \<rparr>,
       wr_critique = None \<rparr>"

text \<open>
  A request whose only metadata item has the empty id, a writer that drafts nothing and
  agents that return empty batches.
\<close>

definition empty_id_item :: subchapter_meta_item where
  "empty_id_item =
     \<lparr> mi_id = Unparsable [], mi_title = Some ''Lost'', mi_chapter_title = None,
       mi_order_label = None, mi_chapter_order = None, mi_sub_order = None \<rparr>"

definition empty_id_payload :: writing_payload where
  "empty_id_payload =
     \<lparr> wp_project_id = Canonical 7, wp_subchapters = [empty_id_item],
       wp_cycle_count = Some 1 \<rparr>"

definition empty_writer_batch :: WriterDraftBatch where
  "empty_writer_batch = \<lparr> wdb_subchapters = [], wdb_overview = None \<rparr>"

definition silent_critics :: "nat \<Rightarrow> run_error + CritiqueBatch" where
  "silent_critics i = Inr \<lparr> cb_subchapters = [], cb_summary = None \<rparr>"

definition silent_implementers :: "nat \<Rightarrow> run_error + ImplementationBatch" where
  "silent_implementers i = Inr \<lparr> ib_subchapters = [], ib_summary = None \<rparr>"

definition empty_result :: WritingResult where
  "empty_result =
     \<lparr> wr_batch =
         \<lparr> wb_project_id = 7, wb_cycle_count = 1, wb_readiness = Readiness_ready,
           wb_summary = None, wb_subchapters = [], wb_total_word_count = None \<rparr>,
       wr_critique = None \<rparr>"

subsection \<open>Word counts reported in a run\<close>

text \<open>
  The word counts that the agents report, in the order in which the engine records them
  (lines 218 and 370): the writer's entries, then the entries of the implementer of each
  cycle. A report is the id text of the subchapter with the count, which may be null. A
  critic reports none.
\<close>

definition writer_reports :: "WriterDraftBatch \<Rightarrow> (id_text \<times> nat option) list" where
  "writer_reports writer_batch =
     map (\<lambda>entry. (Canonical (wd_subchapter_id entry), wd_word_count entry))
       (wdb_subchapters writer_batch)"

definition implementer_reports :: "run_error + ImplementationBatch \<Rightarrow> (id_text \<times> nat option) list" where
  "implementer_reports implement_response =
     (case implement_response of
        Inl e \<Rightarrow> []
      | Inr implementation_batch \<Rightarrow>
          map (\<lambda>entry. (Canonical (ie_subchapter_id entry), ie_word_count entry))
            (ib_subchapters implementation_batch))"

definition word_count_reports ::
  "WriterDraftBatch \<Rightarrow> (nat \<Rightarrow> run_error + ImplementationBatch) \<Rightarrow> nat \<Rightarrow> (id_text \<times> nat option) list" where
  "word_count_reports writer_batch implementers cycle_count =
     writer_reports writer_batch @
     concat (map (\<lambda>i. implementer_reports (implementers i)) [0..<cycle_count])"

text \<open>The count of the last report for a subchapter, null when there is none.\<close>

definition latest_word_count :: "(id_text \<times> nat option) list \<Rightarrow> id_text \<Rightarrow> nat option" where
  "latest_word_count reports sub =
     (case map_of (rev reports) sub of None \<Rightarrow> None | Some word_count \<Rightarrow> word_count)"

text \<open>
  An example with three subchapters, listed out of order, and two cycles. The writer
  reports 300, 120 and 50 words for the subchapters 100, 200 and 300; the first implementer
  reports 315 words for 100; the second reports 290 words for 100 and a null count for 300.
  The critics return empty batches.
\<close>

definition counted_payload :: writing_payload where
  "counted_payload =
     \<lparr> wp_project_id = Canonical 7,
       wp_subchapters =
         [\<lparr> mi_id = Canonical 200, mi_title = Some ''Later'', mi_chapter_title = None,
            mi_order_label = None, mi_chapter_order = Some 1, mi_sub_order = Some 2 \<rparr>,
          \<lparr> mi_id = Canonical 100, mi_title = Some ''Origins'', mi_chapter_title = None,
            mi_order_label = None, mi_chapter_order = Some 1, mi_sub_order = Some 1 \<rparr>,
          \<lparr> mi_id = Canonical 300, mi_title = Some ''Coda'', mi_chapter_title = None,
            mi_order_label = None, mi_chapter_order = Some 2, mi_sub_order = Some 1 \<rparr>],
       wp_cycle_count = Some 2 \<rparr>"

definition counted_writer_batch :: WriterDraftBatch where
  "counted_writer_batch =
     \<lparr> wdb_subchapters =
         [\<lparr> wd_subchapter_id = 100, wd_content = ''first'', wd_summary = None,
            wd_word_count = Some 300 \<rparr>,
          \<lparr> wd_subchapter_id = 200, wd_content = ''second'', wd_summary = None,
            wd_word_count = Some 120 \<rparr>,
          \<lparr> wd_subchapter_id = 300, wd_content = ''third'', wd_summary = None,
            wd_word_count = Some 50 \<rparr>],
       wdb_overview = None \<rparr>"

definition counted_implementers :: "nat \<Rightarrow> run_error + ImplementationBatch" where
  "counted_implementers i =
     Inr \<lparr> ib_subchapters =
             (if i = 0
              then [\<lparr> ie_subchapter_id = 100, ie_content = ''first, revised'', ie_summary = None,
                      ie_word_count = Some 315, ie_resolved_feedback = [], ie_notes = None \<rparr>]
              else [\<lparr> ie_subchapter_id = 100, ie_content = ''first, revised again'',
                      ie_summary = None, ie_word_count = Some 290, ie_resolved_feedback = [],
                      ie_notes = None \<rparr>,
                    \<lparr> ie_subchapter_id = 300, ie_content = ''third, revised'', ie_summary = None,
                      ie_word_count = None, ie_resolved_feedback = [], ie_notes = None \<rparr>]),
           ib_summary = None \<rparr>"

subsection \<open>Auxiliary notions for the project id\<close>

text \<open>Every iteration recorded in the run state belongs to the project.\<close>

definition iterations_in_project :: "uuid \<Rightarrow> run_state \<Rightarrow> bool" where
  "iterations_in_project project_uuid st =
     (\<forall>sub its. rs_iterations_map st sub = Some its \<longrightarrow>
        list_all (\<lambda>it. it_project_id it = project_uuid) its)"

text \<open>The run state after one more \<^verbatim>\<open>uuid4\<close> call.\<close>

definition shift_uuid :: "run_state \<Rightarrow> run_state" where
  "shift_uuid st = st \<lparr> rs_next_uuid := Suc (rs_next_uuid st) \<rparr>"

text \<open>A second supply, handing out 50, 51, 52, ...\<close>

definition offset_uuid4 :: "nat \<Rightarrow> uuid" where
  "offset_uuid4 n = 50 + n"

subsection \<open>The life of a feedback item\<close>

text \<open>
  The feedback list and the iteration list of a subchapter in a run state; an id outside
  the dictionaries has none.
\<close>

definition feedback_of :: "run_state \<Rightarrow> id_text \<Rightarrow> DraftFeedbackItem list" where
  "feedback_of st sub = (case rs_feedback_map st sub of None \<Rightarrow> [] | Some fbs \<Rightarrow> fbs)"

definition iterations_of :: "run_state \<Rightarrow> id_text \<Rightarrow> DraftIteration list" where
  "iterations_of st sub = (case rs_iterations_map st sub of None \<Rightarrow> [] | Some its \<Rightarrow> its)"

text \<open>
  The invariant of the feedback lists: an item is addressed exactly when it carries an
  iteration id; every id is a value that \<^verbatim>\<open>uuid4\<close> has already returned in this run;
  and no two items, in one list or in two, share an id.
\<close>

definition feedback_wf :: "(nat \<Rightarrow> uuid) \<Rightarrow> run_state \<Rightarrow> bool" where
  "feedback_wf uuid4 st =
     ((\<forall>sub. list_all (\<lambda>f. fb_addressed f = (fb_addressed_in_iteration f \<noteq> None) \<and>
                           (\<exists>m<rs_next_uuid st. fb_id f = uuid4 m))
                  (feedback_of st sub)) \<and>
      (\<forall>sub sub' i i'.
          i < length (feedback_of st sub) \<and> i' < length (feedback_of st sub') \<and>
          fb_id (feedback_of st sub ! i) = fb_id (feedback_of st sub' ! i')
          \<longrightarrow> sub = sub' \<and> i = i'))"

text \<open>
  What a critic pass does to the feedback lists: every list keeps its items as they are
  and gains new ones at its end, each unaddressed, without an iteration id, and with an id
  that \<^verbatim>\<open>uuid4\<close> returned during the pass.
\<close>

definition critic_created :: "(nat \<Rightarrow> uuid) \<Rightarrow> run_state \<Rightarrow> run_state \<Rightarrow> bool" where
  "critic_created uuid4 st st' =
     (rs_next_uuid st \<le> rs_next_uuid st' \<and>
      (\<forall>sub. \<exists>new.
         feedback_of st' sub = feedback_of st sub @ new \<and>
         list_all (\<lambda>f. \<not> fb_addressed f \<and> fb_addressed_in_iteration f = None \<and>
                       (\<exists>m. rs_next_uuid st \<le> m \<and> m < rs_next_uuid st' \<and> fb_id f = uuid4 m))
                  new))"

text \<open>
  What one implementer entry does to an item: an item whose id the entry reports becomes
  addressed and takes the id of the entry's iteration; any other item is left as it is.
\<close>

definition resolve_item :: "uuid list \<Rightarrow> uuid \<Rightarrow> DraftFeedbackItem \<Rightarrow> DraftFeedbackItem" where
  "resolve_item resolved_ids iteration_id f =
     (if fb_id f \<in> set resolved_ids
      then f \<lparr> fb_addressed := True, fb_addressed_in_iteration := Some iteration_id \<rparr>
      else f)"

text \<open>
  What one implementer entry does to the run state: one iteration with the implementer's
  role is recorded for its subchapter, the feedback list of that subchapter is resolved
  against that iteration's id, the iteration carries the resulting list as its snapshot,
  and the lists of the other subchapters are untouched.
\<close>

definition implementer_resolved ::
  "AgentRole \<Rightarrow> ImplementationEntry \<Rightarrow> run_state \<Rightarrow> run_state \<Rightarrow> bool" where
  "implementer_resolved rl entry st st' =
     (\<exists>recorded.
        iterations_of st' (Canonical (ie_subchapter_id entry)) =
          iterations_of st (Canonical (ie_subchapter_id entry)) @ [recorded] \<and>
        it_role recorded = rl \<and>
        feedback_of st' (Canonical (ie_subchapter_id entry)) =
          map (resolve_item (ie_resolved_feedback entry) (it_id recorded))
            (feedback_of st (Canonical (ie_subchapter_id entry))) \<and>
        it_feedback recorded = feedback_of st' (Canonical (ie_subchapter_id entry)) \<and>
        (\<forall>other. other \<noteq> Canonical (ie_subchapter_id entry)
           \<longrightarrow> feedback_of st' other = feedback_of st other))"

text \<open>
  An item \<open>f\<close> and its later form \<open>f'\<close>: only the two resolution fields may differ, an
  addressed item stays addressed, and the item is unchanged altogether unless its id is
  among the reported ones.
\<close>

definition item_persists :: "uuid set \<Rightarrow> DraftFeedbackItem \<Rightarrow> DraftFeedbackItem \<Rightarrow> bool" where
  "item_persists reported f f' =
     (f' = f \<lparr> fb_addressed := fb_addressed f',
               fb_addressed_in_iteration := fb_addressed_in_iteration f' \<rparr> \<and>
      (fb_addressed f \<longrightarrow> fb_addressed f') \<and>
      (fb_id f \<notin> reported \<longrightarrow> f' = f))"

text \<open>
  Between two run states every feedback list keeps its items, each in its place and each
  as \<open>item_persists\<close> allows, new items coming after them.
\<close>

definition feedback_persists :: "(id_text \<Rightarrow> uuid set) \<Rightarrow> run_state \<Rightarrow> run_state \<Rightarrow> bool" where
  "feedback_persists reported st st' =
     (\<forall>sub. \<exists>kept new.
        feedback_of st' sub = kept @ new \<and>
        list_all2 (item_persists (reported sub)) (feedback_of st sub) kept)"

text \<open>
  The ids that implementer entries report as resolved for a subchapter: in a list of
  entries, in a response, and in the cycles \<open>i, ..., i + n - 1\<close> of a run.
\<close>

definition entries_reported :: "ImplementationEntry list \<Rightarrow> id_text \<Rightarrow> uuid set" where
  "entries_reported entries sub =
     set (concat (map ie_resolved_feedback
                    (filter (\<lambda>e. Canonical (ie_subchapter_id e) = sub) entries)))"

definition response_reported :: "run_error + ImplementationBatch \<Rightarrow> id_text \<Rightarrow> uuid set" where
  "response_reported response sub =
     (case response of Inl e \<Rightarrow> {} | Inr b \<Rightarrow> entries_reported (ib_subchapters b) sub)"

fun reported_ids ::
  "(nat \<Rightarrow> run_error + ImplementationBatch) \<Rightarrow> nat \<Rightarrow> nat \<Rightarrow> id_text \<Rightarrow> uuid set" where
  "reported_ids implementers i 0 sub = {}"
| "reported_ids implementers i (Suc n) sub =
     response_reported (implementers i) sub \<union> reported_ids implementers (Suc i) n sub"

text \<open>The two facts that the proofs carry through the critic and the implementer loops.\<close>

definition critic_step :: "(nat \<Rightarrow> uuid) \<Rightarrow> run_state \<Rightarrow> run_state \<Rightarrow> bool" where
  "critic_step uuid4 st st' =
     (critic_created uuid4 st st' \<and> (inj uuid4 \<longrightarrow> feedback_wf uuid4 st \<longrightarrow> feedback_wf uuid4 st'))"

definition implement_step :: "(nat \<Rightarrow> uuid) \<Rightarrow> (id_text \<Rightarrow> uuid set) \<Rightarrow> run_state \<Rightarrow> run_state \<Rightarrow> bool" where
  "implement_step uuid4 R st st' =
     (feedback_wf uuid4 st \<longrightarrow> feedback_wf uuid4 st' \<and> feedback_persists R st st')"

text \<open>
  The run state of the example after the writer pass and the first critic pass, and the
  entry of the resolving implementer.
\<close>

definition example_state :: run_state where
  "example_state =
     \<lparr> rs_next_uuid = 4,
       rs_iterations_map =
         [Canonical 100 \<mapsto> [example_writer_iteration,
                               example_critic_iteration 3 0 WRITING_CRITIC_I 2]],
       rs_feedback_map = [Canonical 100 \<mapsto> [example_feedback 2 False None]],
       rs_current_drafts = [Canonical 100 \<mapsto> ''draft''],
       rs_word_counts = [Canonical 100 \<mapsto> Some 0],
       rs_summary_parts = [],
       rs_critic_summaries = [] \<rparr>"

definition example_entry :: ImplementationEntry where
  "example_entry =
     \<lparr> ie_subchapter_id = 100, ie_content = ''revised'', ie_summary = None,
       ie_word_count = Some 0, ie_resolved_feedback = [2], ie_notes = None \<rparr>"

text \<open>
  The result of two cycles with the resolving implementer, which reports item 2 in both.
\<close>

definition restamped_result :: WritingResult where
  "restamped_result =
     \<lparr> wr_batch =
         \<lparr> wb_project_id = 0, wb_cycle_count = 2, wb_readiness = Readiness_draft,
           wb_summary = None,
           wb_subchapters =
             [\<lparr> st_subchapter_id = 100, st_title = ''Origins'', st_chapter_title = None,
                st_order_label = None, st_current_cycle = 1, st_status = Status_in_review,
                st_iterations =
                  [example_writer_iteration,
                   example_critic_iteration 3 0 WRITING_CRITIC_I 2,
                   example_implementer_iteration 4 0 WRITING_IMPLEMENTATION_I 0
                     [example_feedback 2 True (Some 4)],
                   example_critic_iteration 6 1 WRITING_CRITIC_II 5,
                   example_implementer_iteration 7 1 WRITING_IMPLEMENTATION_II 0
                     [example_feedback 2 True (Some 7), example_feedback 5 False None]],
                st_outstanding_feedback = [example_feedback 5 False None],
                st_final_iteration_id = Some 7,
                st_final_word_count = Some 0 \<rparr>],
           wb_total_word_count = None \<rparr>,
       wr_critique = None \<rparr>"

subsection \<open>Creative guidelines (services/orchestrator/app/guidelines/engine.py)\<close>

text \<open>
  \<^verbatim>\<open>Literal["draft", "final", "needs_review"]\<close>. A project id field of a guideline or of
  a batch holds the UUID that validation produced, or, after \<^verbatim>\<open>model_copy(update=...)\<close>,
  which does not validate, the text of the request.
\<close>

datatype guideline_status = Guideline_draft | Guideline_final | Guideline_needs_review

datatype id_value = Id_text string | Id_uuid uuid

text \<open>
  \<open>cg_guidance\<close> stands for the content fields that the engine does not touch (facts,
  emotional beats, voice, reminders, metrics, risks); timestamps are left out.
\<close>

record CreativeGuideline =
  cg_id :: uuid
  cg_project_id :: id_value
  cg_subchapter_id :: uuid
  cg_objectives :: "string list"
  cg_guidance :: string
  cg_status :: guideline_status
  cg_created_by :: AgentRole
  cg_version :: int

record CreativeGuidelineBatch =
  gb_project_id :: id_value
  gb_version :: int
  gb_summary :: "string option"
  gb_readiness :: batch_readiness
  gb_guidelines :: "CreativeGuideline list"

text \<open>
  The two fields of the payload that reach the returned batch:
  \<^verbatim>\<open>payload.get("project_id", "")\<close> and \<^verbatim>\<open>payload.get("target_version")\<close>.
\<close>

record guidelines_payload =
  gp_project_id :: string
  gp_target_version :: "int option"

text \<open>Line 63: \<^verbatim>\<open>int(payload.get("target_version") or 1)\<close>.\<close>

definition resolve_target_version :: "int option \<Rightarrow> int" where
  "resolve_target_version v = (case v of None \<Rightarrow> 1 | Some t \<Rightarrow> if t = 0 then 1 else t)"

text \<open>\<^verbatim>\<open>project_id or guideline.project_id\<close>: the request's id unless it is empty.\<close>

definition project_id_or :: "string \<Rightarrow> id_value \<Rightarrow> id_value" where
  "project_id_or project_id echoed = (if project_id \<noteq> [] then Id_text project_id else echoed)"

text \<open>
  \<^verbatim>\<open>_ensure_final_metadata\<close> (175-199). The update also names \<^verbatim>\<open>updated_at\<close>, with
  the value the guideline already has.
\<close>

definition ensure_final_metadata ::
  "CreativeGuidelineBatch \<Rightarrow> string \<Rightarrow> int \<Rightarrow> CreativeGuidelineBatch" where
  "ensure_final_metadata batch project_id target_version =
     (let final_guidelines =
            map (\<lambda>guideline.
                   guideline \<lparr> cg_project_id := project_id_or project_id (cg_project_id guideline),
                               cg_version := target_version,
                               cg_status := Guideline_final,
                               cg_created_by := CREATIVE_DIRECTOR_FINAL \<rparr>)
                (gb_guidelines batch)
      in batch \<lparr> gb_project_id := project_id_or project_id (gb_project_id batch),
                 gb_version := target_version,
                 gb_guidelines := final_guidelines,
                 gb_readiness := Readiness_ready \<rparr>)"

text \<open>
  Lines 55, 63 and 112 of \<^verbatim>\<open>generate_creative_guidelines\<close>: what the function does
  with the final batch once it is parsed.
\<close>

definition finish_guidelines :: "guidelines_payload \<Rightarrow> CreativeGuidelineBatch \<Rightarrow> CreativeGuidelineBatch" where
  "finish_guidelines payload final_batch =
     ensure_final_metadata final_batch (gp_project_id payload)
       (resolve_target_version (gp_target_version payload))"

text \<open>
  \<^verbatim>\<open>generate_creative_guidelines\<close> (35-118). \<^verbatim>\<open>_request_batch\<close> and
  \<^verbatim>\<open>_request_text\<close> are declared with four positional parameters (provider,
  \<^verbatim>\<open>provider_config\<close>, prompt, override); the three calls at 65, 84 and 92 pass three
  arguments (the sibling engines pass \<^verbatim>\<open>provider_config\<close>), so Python raises TypeError
  when it binds them. \<open>call_request_batch n outcome\<close> is a call with \<open>n\<close> arguments whose
  body would yield \<open>outcome\<close>.
\<close>

datatype stage_error = TypeError | StageResponseError | StageValidationError

definition call_request_batch ::
  "nat \<Rightarrow> stage_error + CreativeGuidelineBatch \<Rightarrow> stage_error + CreativeGuidelineBatch" where
  "call_request_batch arguments_passed outcome =
     (if arguments_passed \<noteq> 4 then Inl TypeError else outcome)"

definition call_request_text :: "nat \<Rightarrow> stage_error + string \<Rightarrow> stage_error + string" where
  "call_request_text arguments_passed outcome =
     (if arguments_passed \<noteq> 4 then Inl TypeError else outcome)"

definition generate_creative_guidelines ::
  "guidelines_payload \<Rightarrow> stage_error + CreativeGuidelineBatch \<Rightarrow> stage_error + string
     \<Rightarrow> stage_error + CreativeGuidelineBatch \<Rightarrow> stage_error + CreativeGuidelineBatch \<times> string option" where
  "generate_creative_guidelines payload proposal_outcome critique_outcome final_outcome =
     (case call_request_batch 3 proposal_outcome of
        Inl e \<Rightarrow> Inl e
      | Inr proposal \<Rightarrow>
         (case call_request_text 3 critique_outcome of
            Inl e \<Rightarrow> Inl e
          | Inr critique \<Rightarrow>
             (case call_request_batch 3 final_outcome of
                Inl e \<Rightarrow> Inl e
              | Inr final_batch \<Rightarrow>
                 Inr (finish_guidelines payload final_batch,
                      (if strip critique = [] then None else Some (strip critique))))))"

text \<open>A final batch as a model might return it, echoing its own ids and versions.\<close>

definition echoed_guideline :: CreativeGuideline where
  "echoed_guideline =
     \<lparr> cg_id = 1, cg_project_id = Id_uuid 9, cg_subchapter_id = 100,
       cg_objectives = [''open with the anecdote''], cg_guidance = ''keep it short'',
       cg_status = Guideline_draft, cg_created_by = CREATIVE_DIRECTOR_ASSISTANT, cg_version = 7 \<rparr>"

definition echoed_batch :: CreativeGuidelineBatch where
  "echoed_batch =
     \<lparr> gb_project_id = Id_uuid 9, gb_version = 7, gb_summary = None,
       gb_readiness = Readiness_draft, gb_guidelines = [echoed_guideline] \<rparr>"

subsection \<open>Response cache (services/orchestrator/app/cache.py, context.py)\<close>

text \<open>
  JSON values, as \<^verbatim>\<open>json_schema\<close> holds them. An object is an association list: Python
  dicts keep their insertion order.
\<close>

datatype json =
  JNull | JBool bool | JNumber real | JString string | JArray "json list"
  | JObject "(string \<times> json) list"







text \<open>The dictionary \<^verbatim>\<open>_encode_response\<close> builds (cache.py 137-145).\<close>

record cached_response =
  cr_text :: string
  cr_model :: string
  cr_prompt_tokens :: int
  cr_completion_tokens :: int
  cr_cost_usd :: "real option"
  cr_latency_ms :: "real option"



text \<open>
  What one call of \<^verbatim>\<open>generate\<close> reads from the world: \<^verbatim>\<open>time.time()\<close> in \<^verbatim>\<open>_get\<close> and in \<^verbatim>\<open>_set\<close>,
  \<^verbatim>\<open>datetime.utcnow()\<close> when a response is rebuilt, and whether the Redis calls raise.
\<close>

record call_context =
  cc_time_at_get :: real
  cc_time_at_set :: real
  cc_utcnow :: real
  cc_redis_get_fails :: bool
  cc_redis_set_fails :: bool

text \<open>
  \<^verbatim>\<open>StageCache\<close> (cache.py 26-37): the TTL, the prompt limit, the Redis client if there is one,
  with the entries of the store and the time each expires (\<^verbatim>\<open>ex=self._ttl_seconds\<close>), and the
  process-local dictionary.
\<close>

record StageCache =
  sc_ttl_seconds :: int
  sc_prompt_limit :: int
  sc_redis :: "(string \<rightharpoonup> cached_response \<times> real) option"
  sc_local :: "string \<rightharpoonup> cached_response \<times> real"









text \<open>
  What \<^verbatim>\<open>self._redis.get(key)\<close> answers at a given time: the entry, unless its time to live
  has run out.
\<close>

definition redis_get :: "(string \<rightharpoonup> cached_response \<times> real) \<Rightarrow> real \<Rightarrow> string \<Rightarrow> cached_response option" where
  "redis_get redis now key =
     (case redis key of
        None \<Rightarrow> None
      | Some (v, expires_at) \<Rightarrow> if expires_at \<le> now then None else Some v)"

text \<open>
  \<^verbatim>\<open>_get\<close> (cache.py 71-86): Redis first when there is a client, any exception swallowed;
  then the local dictionary, where an expired entry is popped.
\<close>

definition cache_get :: "call_context \<Rightarrow> StageCache \<Rightarrow> string \<Rightarrow> cached_response option \<times> StageCache" where
  "cache_get ctx cache key =
     (case (case sc_redis cache of
              None \<Rightarrow> None
            | Some redis \<Rightarrow>
                if cc_redis_get_fails ctx then None
                else redis_get redis (cc_time_at_get ctx) key) of
        Some payload \<Rightarrow> (Some payload, cache)
      | None \<Rightarrow>
         (case sc_local cache key of
            None \<Rightarrow> (None, cache)
          | Some (v, expires_at) \<Rightarrow>
              if expires_at < cc_time_at_get ctx
              then (None, cache \<lparr> sc_local := (sc_local cache)(key := None) \<rparr>)
              else (Some v, cache)))"

















section \<open>Budget gate\<close>



section \<open>Provider override merge\<close>

text \<open>
  C4 as stated fails for \<open>name\<close> and \<open>model\<close>: these two fields are merged with
  \<^verbatim>\<open>or\<close>, so an empty stage value, although not null, gives way to the run value.
\<close>

theorem merge_overrides_counterexample:
  "po_name (no_override \<lparr> po_name := Some [] \<rparr>) = Some [] \<and>
   merge_overrides (Some (no_override \<lparr> po_name := Some [] \<rparr>))
                   (Some (no_override \<lparr> po_name := Some ''openai'' \<rparr>))
     = Some (no_override \<lparr> po_name := Some ''openai'' \<rparr>)"
  by (simp add: no_override_def)

text \<open>
  C4, amended. When either override is absent the merge returns the other one unchanged.
  When both are present, \<open>name\<close> and \<open>model\<close> take the stage value when it is neither
  null nor the empty string, else the run value; each of the other eight fields takes the
  stage value when it is not null, else the run value.
\<close>

theorem merge_overrides_fields:
  "merge_overrides None run_override = run_override \<and>
   merge_overrides stage_override None = stage_override \<and>
   (\<exists>merged. merge_overrides (Some stage) (Some run) = Some merged \<and>
      po_name merged = (case po_name stage of None \<Rightarrow> po_name run
                        | Some n \<Rightarrow> if n = [] then po_name run else Some n) \<and>
      po_model merged = (case po_model stage of None \<Rightarrow> po_model run
                        | Some n \<Rightarrow> if n = [] then po_model run else Some n) \<and>
      po_temperature merged =
        (case po_temperature stage of None \<Rightarrow> po_temperature run | Some v \<Rightarrow> Some v) \<and>
      po_max_output_tokens merged =
        (case po_max_output_tokens stage of None \<Rightarrow> po_max_output_tokens run | Some v \<Rightarrow> Some v) \<and>
      po_json_mode merged =
        (case po_json_mode stage of None \<Rightarrow> po_json_mode run | Some v \<Rightarrow> Some v) \<and>
      po_top_p merged = (case po_top_p stage of None \<Rightarrow> po_top_p run | Some v \<Rightarrow> Some v) \<and>
      po_reasoning_effort merged =
        (case po_reasoning_effort stage of None \<Rightarrow> po_reasoning_effort run | Some v \<Rightarrow> Some v) \<and>
      po_verbosity merged =
        (case po_verbosity stage of None \<Rightarrow> po_verbosity run | Some v \<Rightarrow> Some v) \<and>
      po_thinking_budget merged =
        (case po_thinking_budget stage of None \<Rightarrow> po_thinking_budget run | Some v \<Rightarrow> Some v) \<and>
      po_include_thoughts merged =
        (case po_include_thoughts stage of None \<Rightarrow> po_include_thoughts run | Some v \<Rightarrow> Some v))"
proof -
  have a: "merge_overrides stage_override None = stage_override"
    by (cases stage_override) simp_all
  have b: "if_not_none x y = (case x of None \<Rightarrow> y | Some v \<Rightarrow> Some v)" for x y :: "'a option"
    by (cases x) simp_all
  have c: "str_or x y = (case x of None \<Rightarrow> y | Some n \<Rightarrow> if n = [] then y else Some n)" for x y
    by (cases x) simp_all
  show ?thesis using a by (simp add: b c)
qed

section \<open>Fact-mapping coverage\<close>

text \<open>
  After any number of facts the count of a key is its starting count plus the number of
  facts that carry the key.
\<close>

lemma count_facts_get:
  "(case count_facts counts facts k of None \<Rightarrow> 0 | Some c \<Rightarrow> c) =
     (case counts k of None \<Rightarrow> 0 | Some c \<Rightarrow> c)
       + length (filter (\<lambda>f. fact_subchapter_id f = k) facts)"
  by (induction facts arbitrary: counts) (auto split: option.splits)

text \<open>
  C6. The returned batch is the final mapping with its facts and project id as parsed and
  its coverage field replaced: one record per subchapter entry of the structure, in
  document order (an id that the structure lists twice has two records), whose count is the
  number of facts of the final mapping with that subchapter id, zero included. A fact whose
  subchapter the structure does not have is kept and counted nowhere. The coverage the model
  returned has no influence on the result.
\<close>

theorem coverage_complete:
  "finish_fact_mapping structure final_mapping =
     \<lparr> fm_project_id = fm_project_id final_mapping,
       fm_facts = fm_facts final_mapping,
       fm_coverage =
         map (\<lambda>subchapter.
                \<lparr> cov_subchapter_id = sub_id subchapter,
                  cov_fact_count =
                    length (filter (\<lambda>f. fact_subchapter_id f = sub_id subchapter)
                              (fm_facts final_mapping)) \<rparr>)
             (structure_subchapters structure) \<rparr> \<and>
   finish_fact_mapping structure (final_mapping \<lparr> fm_coverage := returned \<rparr>) =
     finish_fact_mapping structure final_mapping"
proof -
  have get: "(case count_facts Map.empty facts k of None \<Rightarrow> 0 | Some c \<Rightarrow> c) =
      length (filter (\<lambda>f. fact_subchapter_id f = k) facts)" for facts k
    using count_facts_get [of Map.empty facts k] by simp
  show ?thesis
    by (simp add: finish_fact_mapping_def build_coverage_def coverage_of_structure_def
        structure_subchapters_def get map_concat comp_def)
qed

text \<open>
  On the example the facts are returned as they came and the coverage is 2, 0 and 1 for the
  subchapters 1, 2 and 3, in place of the model's record.
\<close>

theorem coverage_complete_witness:
  "finish_fact_mapping example_structure example_mapping =
     \<lparr> fm_project_id = 5, fm_facts = example_facts,
       fm_coverage =
         [\<lparr> cov_subchapter_id = 1, cov_fact_count = 2 \<rparr>,
          \<lparr> cov_subchapter_id = 2, cov_fact_count = 0 \<rparr>,
          \<lparr> cov_subchapter_id = 3, cov_fact_count = 1 \<rparr>] \<rparr>"
  using coverage_complete [of example_structure example_mapping "[]"]
  by (simp add: example_structure_def example_mapping_def example_facts_def
      structure_subchapters_def)

section \<open>Writing stage: evaluation of the example runs\<close>

lemmas writing_defs =
  generate_writing_batch_def writing_passes_def resolve_project_uuid_def resolve_cycle_count_def
  meta_of_item_def writer_ids_def missing_ids_def initial_state_def writer_entry_def
  writer_pass_def critic_roles_def implement_roles_def add_feedback_def critic_entry_def
  critic_pass_def iteration_summary_of_def mark_resolved_def stamp_iteration_def
  implement_entry_def implement_pass_def run_cycle_def sorted_meta_def
  new_SubchapterDraftState_def new_DraftIteration_def new_DraftFeedbackItem_def
  derive_status_def subchapter_state_def finalise_def strip_def py_isspace_def

lemmas example_defs =
  counting_uuid4_def example_payload_def example_writer_batch_def example_critique_batch_def
  example_implementation_batch_def example_critics_def example_implementers_def
  idle_implementers_def example_writer_iteration_def example_feedback_def
  example_critic_iteration_def example_implementer_iteration_def

lemma example_run:
  "generate_writing_batch counting_uuid4 (example_payload 1) (Inr example_writer_batch)
     example_critics example_implementers = Inr example_result"
  by (simp add: writing_defs example_defs example_result_def Let_def)

lemma idle_run:
  "generate_writing_batch counting_uuid4 (example_payload 1) (Inr example_writer_batch)
     example_critics idle_implementers = Inr idle_result"
  by (simp add: writing_defs example_defs idle_result_def Let_def)

lemma empty_id_run:
  "generate_writing_batch counting_uuid4 empty_id_payload (Inr empty_writer_batch)
     silent_critics silent_implementers = Inr empty_result"
  by (simp add: writing_defs empty_id_payload_def empty_id_item_def empty_writer_batch_def
      silent_critics_def silent_implementers_def empty_result_def Let_def)

section \<open>Writing stage: the returned batch\<close>

lemma subchapter_state_step:
  assumes "subchapter_state st item (states, t) = Inr (states', t')"
  shows "\<exists>state. states' = states @ [state] \<and> state_matches st item state \<and>
           t' = t + (case st_final_word_count state of None \<Rightarrow> 0 | Some n \<Rightarrow> n)"
proof -
  obtain sub meta where item: "item = (sub, meta)" by (cases item)
  from assms item obtain its where its: "rs_iterations_map st sub = Some its"
    by (auto simp: subchapter_state_def split: option.splits)
  from assms item its obtain fbs where fbs: "rs_feedback_map st sub = Some fbs"
    by (auto simp: subchapter_state_def split: option.splits)
  from assms item its fbs obtain u where u: "uuid_of_text sub = Some u"
    by (auto simp: subchapter_state_def Let_def split: option.splits)
  define wc where "wc = (case rs_word_counts st sub of None \<Rightarrow> None | Some w \<Rightarrow> w)"
  define state where "state =
     \<lparr> st_subchapter_id = u, st_title = sm_title meta, st_chapter_title = sm_chapter_title meta,
       st_order_label = sm_order_label meta, st_current_cycle = fold max (map it_cycle its) 0,
       st_status = derive_status its (filter (\<lambda>i. \<not> fb_addressed i) fbs),
       st_iterations = its, st_outstanding_feedback = filter (\<lambda>i. \<not> fb_addressed i) fbs,
       st_final_iteration_id = (if its = [] then None else Some (it_id (last its))),
       st_final_word_count = wc \<rparr>"
  from assms item its fbs u have res: "states' = states @ [state]"
      "t' = (case wc of None \<Rightarrow> t | Some n \<Rightarrow> if n \<noteq> 0 then t + n else t)"
    by (auto simp: subchapter_state_def new_SubchapterDraftState_def Let_def state_def wc_def
        split: if_splits)
  have m: "state_matches st item state"
    using its fbs
    by (simp add: state_matches_def item state_def wc_def derive_status_def Let_def
        filter_empty_conv list_all_iff)
  have t: "t' = t + (case st_final_word_count state of None \<Rightarrow> 0 | Some n \<Rightarrow> n)"
    using res(2) by (simp add: state_def split: option.splits)
  show ?thesis using res(1) m t by blast
qed

lemma subchapter_states_loop:
  assumes "for_each (subchapter_state st) items (states, t) = Inr (states', t')"
  shows "\<exists>new. states' = states @ new \<and> list_all2 (state_matches st) items new \<and>
           t' = t + sum_list (map (\<lambda>s. case st_final_word_count s of None \<Rightarrow> 0 | Some n \<Rightarrow> n) new)"
  using assms
proof (induction items arbitrary: states t)
  case Nil
  then show ?case by simp
next
  case (Cons item items)
  from Cons.prems obtain states1 t1 where
    step: "subchapter_state st item (states, t) = Inr (states1, t1)" and
    rest: "for_each (subchapter_state st) items (states1, t1) = Inr (states', t')"
    by (auto split: sum.splits)
  from subchapter_state_step [OF step] obtain state where
    s1: "states1 = states @ [state]" "state_matches st item state"
        "t1 = t + (case st_final_word_count state of None \<Rightarrow> 0 | Some n \<Rightarrow> n)"
    by blast
  from Cons.IH [OF rest] obtain new where
    n: "states' = states1 @ new" "list_all2 (state_matches st) items new"
       "t' = t1 + sum_list (map (\<lambda>s. case st_final_word_count s of None \<Rightarrow> 0 | Some n \<Rightarrow> n) new)"
    by blast
  show ?case
    by (rule exI [of _ "state # new"]) (use s1 n in simp)
qed

lemma finalise_result:
  assumes "finalise project_uuid cycle_count meta_lookup st = Inr result"
  shows "list_all2 (state_matches st) (sorted_meta meta_lookup) (wb_subchapters (wr_batch result))"
    and "wb_readiness (wr_batch result) =
           (if list_all (\<lambda>state. st_status state = Status_ready) (wb_subchapters (wr_batch result))
            then Readiness_ready else Readiness_draft)"
    and "wb_total_word_count (wr_batch result) =
           (let word_total = sum_list (map (\<lambda>s. case st_final_word_count s of None \<Rightarrow> 0 | Some n \<Rightarrow> n)
                                 (wb_subchapters (wr_batch result)))
            in if word_total = 0 then None else Some word_total)"
    and "wb_project_id (wr_batch result) = project_uuid"
proof -
  from assms obtain states t where
    loop: "for_each (subchapter_state st) (sorted_meta meta_lookup) ([], 0) = Inr (states, t)"
    by (auto simp: finalise_def split: sum.splits)
  from subchapter_states_loop [OF loop] have
    m: "list_all2 (state_matches st) (sorted_meta meta_lookup) states" and
    t: "t = sum_list (map (\<lambda>s. case st_final_word_count s of None \<Rightarrow> 0 | Some n \<Rightarrow> n) states)"
    by auto
  from assms loop have r: "wb_subchapters (wr_batch result) = states"
      "wb_readiness (wr_batch result) =
         (if list_all (\<lambda>state. st_status state = Status_ready) states
          then Readiness_ready else Readiness_draft)"
      "wb_total_word_count (wr_batch result) = (if t = 0 then None else Some t)"
      "wb_project_id (wr_batch result) = project_uuid"
    by (auto simp: finalise_def Let_def split: if_splits)
  show "list_all2 (state_matches st) (sorted_meta meta_lookup) (wb_subchapters (wr_batch result))"
    using m r by simp
  show "wb_readiness (wr_batch result) =
           (if list_all (\<lambda>state. st_status state = Status_ready) (wb_subchapters (wr_batch result))
            then Readiness_ready else Readiness_draft)"
    using r by simp
  show "wb_total_word_count (wr_batch result) =
           (let word_total = sum_list (map (\<lambda>s. case st_final_word_count s of None \<Rightarrow> 0 | Some n \<Rightarrow> n)
                                 (wb_subchapters (wr_batch result)))
            in if word_total = 0 then None else Some word_total)"
    using r t by (simp add: Let_def)
  show "wb_project_id (wr_batch result) = project_uuid" using r by simp
qed

lemma generate_writing_batch_Inr:
  assumes "generate_writing_batch uuid4 payload writer_response critics implementers = Inr result"
  obtains project_uuid cycle_count meta_lookup st where
    "writing_passes uuid4 payload writer_response critics implementers =
       Inr (project_uuid, cycle_count, meta_lookup, st)"
    "finalise project_uuid cycle_count meta_lookup st = Inr result"
  using assms by (auto simp: generate_writing_batch_def split: sum.splits)

text \<open>
  C1. In the batch that a successful run returns, the subchapter states are those of the
  subchapters of \<^verbatim>\<open>meta_lookup\<close> in sorted order; each one has status ready iff its
  subchapter has at least one iteration and every item of its feedback list is addressed,
  else \<^verbatim>\<open>in_review\<close> if it has iterations, else draft (\<open>state_matches\<close>); and the readiness of
  the batch is ready iff every state is ready.
\<close>

theorem writing_status_and_readiness:
  assumes "generate_writing_batch uuid4 payload writer_response critics implementers = Inr result"
  shows "\<exists>project_uuid cycle_count meta_lookup st.
           writing_passes uuid4 payload writer_response critics implementers =
             Inr (project_uuid, cycle_count, meta_lookup, st) \<and>
           list_all2 (state_matches st) (sorted_meta meta_lookup)
             (wb_subchapters (wr_batch result)) \<and>
           (wb_readiness (wr_batch result) = Readiness_ready) =
             list_all (\<lambda>state. st_status state = Status_ready) (wb_subchapters (wr_batch result))"
proof -
  from assms obtain project_uuid cycle_count meta_lookup st where
    p: "writing_passes uuid4 payload writer_response critics implementers =
          Inr (project_uuid, cycle_count, meta_lookup, st)" and
    f: "finalise project_uuid cycle_count meta_lookup st = Inr result"
    by (rule generate_writing_batch_Inr)
  from finalise_result(1,2) [OF f] p show ?thesis by auto
qed

theorem writing_status_and_readiness_witness:
  "generate_writing_batch counting_uuid4 (example_payload 1) (Inr example_writer_batch)
     example_critics idle_implementers = Inr idle_result \<and>
   (\<exists>project_uuid cycle_count meta_lookup st.
      writing_passes counting_uuid4 (example_payload 1) (Inr example_writer_batch)
        example_critics idle_implementers = Inr (project_uuid, cycle_count, meta_lookup, st) \<and>
      list_all2 (state_matches st) (sorted_meta meta_lookup)
        (wb_subchapters (wr_batch idle_result)) \<and>
      (wb_readiness (wr_batch idle_result) = Readiness_ready) =
        list_all (\<lambda>state. st_status state = Status_ready) (wb_subchapters (wr_batch idle_result)))"
  using idle_run writing_status_and_readiness [OF idle_run] by simp

section \<open>Writing stage: drafts missing from the writer pass\<close>

lemma keys_build_meta_lookup:
  "fst ` set (build_meta_lookup items acc) =
     fst ` set acc \<union> {mi_id item | item. item \<in> set items \<and> \<not> empty_text (mi_id item)}"
  by (induction items arbitrary: acc) (auto simp: dom_update)

text \<open>
  An item whose id is the empty text is skipped at line 157 and is no key of
  \<^verbatim>\<open>meta_lookup\<close>: it is not among the requested subchapters, and a run without a draft for
  it goes through.
\<close>

lemma empty_id_not_requested:
  "meta_ids (build_meta_lookup (wp_subchapters empty_id_payload) []) = {} \<and>
   generate_writing_batch counting_uuid4 empty_id_payload (Inr empty_writer_batch)
     silent_critics silent_implementers = Inr empty_result"
  using empty_id_run
  by (simp add: meta_ids_def empty_id_payload_def empty_id_item_def)

text \<open>
  C3. The requested subchapters are the keys of \<^verbatim>\<open>meta_lookup\<close>, the set \<^verbatim>\<open>meta_ids\<close> of line
  186: the ids of the metadata items, the empty text apart. When the writer pass returns a batch and some requested id is not the id of a drafted
  subchapter, the run ends with ProviderResponseError, whatever the later agents would
  answer and before any iteration is recorded; so a run that returns a batch, or that ends
  in any other way, had every requested id among the drafted ids.
\<close>

theorem missing_draft_is_hard_failure:
  "meta_ids (build_meta_lookup (wp_subchapters payload) []) =
     {mi_id item | item. item \<in> set (wp_subchapters payload) \<and> \<not> empty_text (mi_id item)} \<and>
   (\<not> meta_ids (build_meta_lookup (wp_subchapters payload) []) \<subseteq> writer_ids writer_batch \<longrightarrow>
      generate_writing_batch uuid4 payload (Inr writer_batch) critics implementers =
        Inl ProviderResponseError) \<and>
   (generate_writing_batch uuid4 payload (Inr writer_batch) critics implementers \<noteq>
        Inl ProviderResponseError \<longrightarrow>
      meta_ids (build_meta_lookup (wp_subchapters payload) []) \<subseteq> writer_ids writer_batch)"
proof -
  have "generate_writing_batch uuid4 payload (Inr writer_batch) critics implementers =
          Inl ProviderResponseError"
    if "\<not> meta_ids (build_meta_lookup (wp_subchapters payload) []) \<subseteq> writer_ids writer_batch"
  proof -
    from that obtain sub where
      "sub \<in> set (map fst (build_meta_lookup (wp_subchapters payload) []))"
      "sub \<notin> writer_ids writer_batch"
      by (auto simp: meta_ids_def)
    then have "sub \<in> set (missing_ids (build_meta_lookup (wp_subchapters payload) []) writer_batch)"
      by (simp add: missing_ids_def)
    then have "missing_ids (build_meta_lookup (wp_subchapters payload) []) writer_batch \<noteq> []"
      by auto
    then show ?thesis
      by (simp add: generate_writing_batch_def writing_passes_def Let_def split: prod.splits)
  qed
  moreover have "meta_ids (build_meta_lookup (wp_subchapters payload) []) =
     {mi_id item | item. item \<in> set (wp_subchapters payload) \<and> \<not> empty_text (mi_id item)}"
    using keys_build_meta_lookup [of "wp_subchapters payload" "[]"] by (simp add: meta_ids_def)
  ultimately show ?thesis by blast
qed

text \<open>
  Both directions on the example: without the draft of subchapter 100 the run is refused;
  the run that returns a batch had the draft.
\<close>

theorem missing_draft_is_hard_failure_witness:
  "\<not> meta_ids (build_meta_lookup (wp_subchapters (example_payload 1)) []) \<subseteq>
       writer_ids empty_writer_batch \<and>
   generate_writing_batch counting_uuid4 (example_payload 1) (Inr empty_writer_batch)
     example_critics example_implementers = Inl ProviderResponseError \<and>
   generate_writing_batch counting_uuid4 (example_payload 1) (Inr example_writer_batch)
     example_critics example_implementers = Inr example_result \<and>
   meta_ids (build_meta_lookup (wp_subchapters (example_payload 1)) []) \<subseteq>
     writer_ids example_writer_batch"
  using missing_draft_is_hard_failure [of "example_payload 1" empty_writer_batch counting_uuid4
      example_critics example_implementers]
    missing_draft_is_hard_failure [of "example_payload 1" example_writer_batch counting_uuid4
      example_critics example_implementers]
    example_run
  by (simp add: meta_ids_def example_payload_def empty_writer_batch_def writer_ids_def)

section \<open>Writing stage: the project id\<close>

lemma for_each_invariant:
  assumes "for_each body xs s = Inr s'" and "P s"
      and "\<And>x t t'. P t \<Longrightarrow> body x t = Inr t' \<Longrightarrow> P t'"
  shows "P s'"
  using assms(1,2)
proof (induction xs arbitrary: s)
  case Nil
  then show ?case by simp
next
  case (Cons x xs)
  then show ?case using assms(3) by (auto split: sum.splits)
qed

lemma writer_entry_project:
  assumes "iterations_in_project p st" "writer_entry uuid4 p entry st = Inr st'"
  shows "iterations_in_project p st'"
  using assms
  by (auto simp: writer_entry_def iterations_in_project_def new_DraftIteration_def Let_def
      split: option.splits if_splits)

lemma add_feedback_iterations:
  assumes "add_feedback uuid4 sub fb (st, new) = Inr (st', new')"
  shows "rs_iterations_map st' = rs_iterations_map st"
  using assms
  by (auto simp: add_feedback_def new_DraftFeedbackItem_def split: option.splits if_splits)

lemma add_feedbacks_iterations:
  assumes "for_each (add_feedback uuid4 sub) fbs (st, new) = Inr (st', new')"
  shows "rs_iterations_map st' = rs_iterations_map st"
proof -
  have "rs_iterations_map (fst (st', new')) = rs_iterations_map st"
    by (rule for_each_invariant [OF assms, where P = "\<lambda>a. rs_iterations_map (fst a) = rs_iterations_map st"])
       (auto dest: add_feedback_iterations)
  then show ?thesis by simp
qed

lemma critic_entry_project:
  assumes "iterations_in_project p st" "critic_entry uuid4 p c rl entry st = Inr st'"
  shows "iterations_in_project p st'"
  using assms
  by (auto simp: critic_entry_def iterations_in_project_def new_DraftIteration_def Let_def
      dest!: add_feedbacks_iterations split: option.splits if_splits sum.splits prod.splits)

lemma implement_entry_project:
  assumes "iterations_in_project p st" "implement_entry uuid4 p c rl entry st = Inr st'"
  shows "iterations_in_project p st'"
  using assms
  by (auto simp: implement_entry_def iterations_in_project_def new_DraftIteration_def Let_def
      split: option.splits if_splits sum.splits)

lemma iterations_in_project_summary [simp]:
  "iterations_in_project p (st \<lparr> rs_summary_parts := x \<rparr>) = iterations_in_project p st"
  "iterations_in_project p (st \<lparr> rs_critic_summaries := y \<rparr>) = iterations_in_project p st"
  by (simp_all add: iterations_in_project_def)

lemma writer_pass_project:
  assumes "iterations_in_project p st" "writer_pass uuid4 p wb st = Inr st'"
  shows "iterations_in_project p st'"
proof -
  from assms(2) obtain st1 where
    l: "for_each (writer_entry uuid4 p) (wdb_subchapters wb) st = Inr st1" and
    e: "iterations_in_project p st' = iterations_in_project p st1"
    by (auto simp: writer_pass_def split: sum.splits if_splits)
  have "iterations_in_project p st1"
    by (rule for_each_invariant [where P = "iterations_in_project p", OF l assms(1)]) (rule writer_entry_project)
  with e show ?thesis by simp
qed

lemma critic_pass_project:
  assumes "iterations_in_project p st" "critic_pass uuid4 p c rl cb st = Inr st'"
  shows "iterations_in_project p st'"
proof -
  from assms(2) obtain st1 where
    l: "for_each (critic_entry uuid4 p c rl) (cb_subchapters cb) st = Inr st1" and
    e: "iterations_in_project p st' = iterations_in_project p st1"
    by (auto simp: critic_pass_def split: sum.splits if_splits)
  have "iterations_in_project p st1"
    by (rule for_each_invariant [where P = "iterations_in_project p", OF l assms(1)]) (rule critic_entry_project)
  with e show ?thesis by simp
qed

lemma implement_pass_project:
  assumes "iterations_in_project p st" "implement_pass uuid4 p c rl ib st = Inr st'"
  shows "iterations_in_project p st'"
proof -
  from assms(2) obtain st1 where
    l: "for_each (implement_entry uuid4 p c rl) (ib_subchapters ib) st = Inr st1" and
    e: "iterations_in_project p st' = iterations_in_project p st1"
    by (auto simp: implement_pass_def split: sum.splits if_splits)
  have "iterations_in_project p st1"
    by (rule for_each_invariant [where P = "iterations_in_project p", OF l assms(1)]) (rule implement_entry_project)
  with e show ?thesis by simp
qed

lemma run_cycle_project:
  assumes "iterations_in_project p st" "run_cycle uuid4 p i cr ir st = Inr st'"
  shows "iterations_in_project p st'"
  using assms
  by (auto simp: run_cycle_def split: if_splits sum.splits
      dest: critic_pass_project implement_pass_project)

lemma run_cycles_project:
  assumes "iterations_in_project p st" "run_cycles uuid4 p critics implementers i n st = Inr st'"
  shows "iterations_in_project p st'"
  using assms
  by (induction n arbitrary: i st) (auto split: sum.splits dest: run_cycle_project)

lemma map_of_empty_lists:
  "map_of (map (\<lambda>(k, m). (k, [])) meta_lookup) sub = Some its \<Longrightarrow> its = []"
  by (induction meta_lookup) (auto split: if_splits)

lemma initial_state_project: "iterations_in_project p (initial_state n meta_lookup)"
  by (auto simp: iterations_in_project_def initial_state_def dest: map_of_empty_lists)

lemma writing_passes_project:
  assumes "writing_passes uuid4 payload writer_response critics implementers =
             Inr (project_uuid, cycle_count, meta_lookup, st)"
  shows "iterations_in_project project_uuid st"
    and "project_uuid = fst (resolve_project_uuid uuid4 (wp_project_id payload))"
  using assms
  by (auto simp: writing_passes_def Let_def split: prod.splits sum.splits if_splits
      dest!: writer_pass_project [OF initial_state_project] dest: run_cycles_project)

lemma state_matches_project:
  assumes "iterations_in_project p st" "list_all2 (state_matches st) items states"
  shows "list_all (\<lambda>state. list_all (\<lambda>it. it_project_id it = p) (st_iterations state)) states"
  using assms(2,1)
  by (induction rule: list_all2_induct)
     (auto simp: state_matches_def iterations_in_project_def)

lemma generated_project_id:
  assumes "generate_writing_batch uuid4 payload writer_response critics implementers = Inr result"
  shows "wb_project_id (wr_batch result) = fst (resolve_project_uuid uuid4 (wp_project_id payload))"
    and "list_all (\<lambda>state. list_all (\<lambda>it. it_project_id it = wb_project_id (wr_batch result))
                          (st_iterations state))
           (wb_subchapters (wr_batch result))"
proof -
  from assms obtain project_uuid cycle_count meta_lookup st where
    p: "writing_passes uuid4 payload writer_response critics implementers =
          Inr (project_uuid, cycle_count, meta_lookup, st)" and
    f: "finalise project_uuid cycle_count meta_lookup st = Inr result"
    by (rule generate_writing_batch_Inr)
  from finalise_result(4) [OF f] writing_passes_project(2) [OF p]
  show a: "wb_project_id (wr_batch result) = fst (resolve_project_uuid uuid4 (wp_project_id payload))"
    by simp
  from state_matches_project [OF writing_passes_project(1) [OF p] finalise_result(1) [OF f]]
    finalise_result(4) [OF f]
  show "list_all (\<lambda>state. list_all (\<lambda>it. it_project_id it = wb_project_id (wr_batch result))
                          (st_iterations state))
           (wb_subchapters (wr_batch result))"
    by simp
qed

lemma shift_uuid_simps [simp]:
  "rs_next_uuid (shift_uuid st) = Suc (rs_next_uuid st)"
  "rs_iterations_map (shift_uuid st) = rs_iterations_map st"
  "rs_feedback_map (shift_uuid st) = rs_feedback_map st"
  "rs_current_drafts (shift_uuid st) = rs_current_drafts st"
  "rs_word_counts (shift_uuid st) = rs_word_counts st"
  "rs_summary_parts (shift_uuid st) = rs_summary_parts st"
  "rs_critic_summaries (shift_uuid st) = rs_critic_summaries st"
  by (simp_all add: shift_uuid_def)

lemma for_each_shift:
  assumes "\<And>x s. body x (f s) = map_sum id f (body' x s)"
  shows "for_each body xs (f s) = map_sum id f (for_each body' xs s)"
  by (induction xs arbitrary: s) (auto simp: assms split: sum.splits)

lemma writer_entry_shift:
  "writer_entry uuid4 p e (shift_uuid st) =
     map_sum id shift_uuid (writer_entry (\<lambda>n. uuid4 (Suc n)) p e st)"
  by (simp add: writer_entry_def Let_def shift_uuid_def split: sum.splits option.splits)

lemma writer_pass_shift:
  "writer_pass uuid4 p wb (shift_uuid st) =
     map_sum id shift_uuid (writer_pass (\<lambda>n. uuid4 (Suc n)) p wb st)"
proof -
  have l: "for_each (writer_entry uuid4 p) xs (shift_uuid st) =
      map_sum id shift_uuid (for_each (writer_entry (\<lambda>n. uuid4 (Suc n)) p) xs st)" for xs
    by (rule for_each_shift) (rule writer_entry_shift)
  show ?thesis
    unfolding writer_pass_def l
    by (cases "for_each (writer_entry (\<lambda>n. uuid4 (Suc n)) p) (wdb_subchapters wb) st")
       (auto simp: shift_uuid_def)
qed

lemma add_feedback_shift:
  "add_feedback uuid4 sub fb (apfst shift_uuid acc) =
     map_sum id (apfst shift_uuid) (add_feedback (\<lambda>n. uuid4 (Suc n)) sub fb acc)"
  by (cases acc)
     (simp add: add_feedback_def shift_uuid_def split: sum.splits option.splits)

lemma critic_entry_shift:
  "critic_entry uuid4 p c rl e (shift_uuid st) =
     map_sum id shift_uuid (critic_entry (\<lambda>n. uuid4 (Suc n)) p c rl e st)"
proof -
  have "for_each (add_feedback uuid4 sub) fbs (shift_uuid st, []) =
      map_sum id (apfst shift_uuid) (for_each (add_feedback (\<lambda>n. uuid4 (Suc n)) sub) fbs (st, []))"
    for sub fbs
    using for_each_shift [of "add_feedback uuid4 sub" "apfst shift_uuid"
        "add_feedback (\<lambda>n. uuid4 (Suc n)) sub" fbs "(st, [])", OF add_feedback_shift]
    by simp
  then show ?thesis
    by (simp add: critic_entry_def Let_def shift_uuid_def split: sum.splits option.splits prod.splits)
qed

lemma critic_pass_shift:
  "critic_pass uuid4 p c rl cb (shift_uuid st) =
     map_sum id shift_uuid (critic_pass (\<lambda>n. uuid4 (Suc n)) p c rl cb st)"
proof -
  have l: "for_each (critic_entry uuid4 p c rl) xs (shift_uuid st) =
      map_sum id shift_uuid (for_each (critic_entry (\<lambda>n. uuid4 (Suc n)) p c rl) xs st)" for xs
    by (rule for_each_shift) (rule critic_entry_shift)
  show ?thesis
    unfolding critic_pass_def l
    by (cases "for_each (critic_entry (\<lambda>n. uuid4 (Suc n)) p c rl) (cb_subchapters cb) st")
       (auto simp: shift_uuid_def)
qed

lemma implement_entry_shift:
  "implement_entry uuid4 p c rl e (shift_uuid st) =
     map_sum id shift_uuid (implement_entry (\<lambda>n. uuid4 (Suc n)) p c rl e st)"
  by (simp add: implement_entry_def Let_def shift_uuid_def split: sum.splits option.splits)

lemma implement_pass_shift:
  "implement_pass uuid4 p c rl ib (shift_uuid st) =
     map_sum id shift_uuid (implement_pass (\<lambda>n. uuid4 (Suc n)) p c rl ib st)"
proof -
  have l: "for_each (implement_entry uuid4 p c rl) xs (shift_uuid st) =
      map_sum id shift_uuid (for_each (implement_entry (\<lambda>n. uuid4 (Suc n)) p c rl) xs st)" for xs
    by (rule for_each_shift) (rule implement_entry_shift)
  show ?thesis
    unfolding implement_pass_def l
    by (cases "for_each (implement_entry (\<lambda>n. uuid4 (Suc n)) p c rl) (ib_subchapters ib) st")
       (auto simp: shift_uuid_def)
qed

lemma run_cycle_shift:
  "run_cycle uuid4 p i cr ir (shift_uuid st) =
     map_sum id shift_uuid (run_cycle (\<lambda>n. uuid4 (Suc n)) p i cr ir st)"
  by (simp add: run_cycle_def critic_pass_shift implement_pass_shift split: sum.splits)

lemma run_cycles_shift:
  "run_cycles uuid4 p critics implementers i n (shift_uuid st) =
     map_sum id shift_uuid (run_cycles (\<lambda>n. uuid4 (Suc n)) p critics implementers i n st)"
  by (induction n arbitrary: i st) (simp_all add: run_cycle_shift split: sum.splits)

lemma finalise_shift:
  "finalise p c m (shift_uuid st) = finalise p c m st"
proof -
  have "subchapter_state (shift_uuid st) = subchapter_state st"
    by (rule ext)+ (simp add: subchapter_state_def split: prod.splits option.splits)
  then show ?thesis by (simp add: finalise_def split: sum.splits prod.splits)
qed

lemma initial_state_shift: "initial_state (Suc n) m = shift_uuid (initial_state n m)"
  by (simp add: initial_state_def shift_uuid_def)

lemma unparsable_project_id_run:
  assumes "uuid_of_text (wp_project_id payload) = None"
  shows "generate_writing_batch uuid4 payload writer_response critics implementers =
         generate_writing_batch (\<lambda>n. uuid4 (Suc n))
           (payload \<lparr> wp_project_id := Canonical (uuid4 0) \<rparr>) writer_response critics implementers"
  using assms
  by (simp add: generate_writing_batch_def writing_passes_def resolve_project_uuid_def Let_def
      initial_state_shift [of 0, simplified] writer_pass_shift run_cycles_shift finalise_shift
      split: sum.splits)

text \<open>
  C10. When the project id of the payload is missing or does not parse as a UUID, the run
  does not fail on that account: it is the very run that the payload would give with the
  first \<^verbatim>\<open>uuid4\<close> value as its project id (the remaining values serving the later
  calls). If it succeeds, that fresh value is the project id of the batch and of every
  recorded iteration; it depends on the supply only, so two runs on one payload can return
  different project ids.
\<close>

theorem unparsable_project_id_replaced:
  assumes "uuid_of_text (wp_project_id payload) = None"
  shows "generate_writing_batch uuid4 payload writer_response critics implementers =
           generate_writing_batch (\<lambda>n. uuid4 (Suc n))
             (payload \<lparr> wp_project_id := Canonical (uuid4 0) \<rparr>)
             writer_response critics implementers \<and>
         (\<forall>result.
            generate_writing_batch uuid4 payload writer_response critics implementers = Inr result
            \<longrightarrow> wb_project_id (wr_batch result) = uuid4 0 \<and>
                list_all (\<lambda>state. list_all (\<lambda>it. it_project_id it = uuid4 0) (st_iterations state))
                  (wb_subchapters (wr_batch result)))"
proof (intro conjI allI impI)
  show "generate_writing_batch uuid4 payload writer_response critics implementers =
           generate_writing_batch (\<lambda>n. uuid4 (Suc n))
             (payload \<lparr> wp_project_id := Canonical (uuid4 0) \<rparr>)
             writer_response critics implementers"
    by (rule unparsable_project_id_run [OF assms])
next
  fix result
  assume r: "generate_writing_batch uuid4 payload writer_response critics implementers = Inr result"
  have p: "fst (resolve_project_uuid uuid4 (wp_project_id payload)) = uuid4 0"
    using assms by (simp add: resolve_project_uuid_def)
  from generated_project_id(1) [OF r] p
  show a: "wb_project_id (wr_batch result) = uuid4 0" by simp
  from generated_project_id(2) [OF r] a
  show "list_all (\<lambda>state. list_all (\<lambda>it. it_project_id it = uuid4 0) (st_iterations state))
          (wb_subchapters (wr_batch result))"
    by simp
qed

lemma offset_run:
  "map_sum id (\<lambda>r. wb_project_id (wr_batch r))
     (generate_writing_batch offset_uuid4 (example_payload 1) (Inr example_writer_batch)
        example_critics example_implementers) = Inr 50"
  by (simp add: writing_defs example_defs offset_uuid4_def Let_def)

theorem unparsable_project_id_replaced_witness:
  "uuid_of_text (wp_project_id (example_payload 1)) = None \<and>
   generate_writing_batch counting_uuid4 (example_payload 1) (Inr example_writer_batch)
     example_critics example_implementers = Inr example_result \<and>
   wb_project_id (wr_batch example_result) = 0 \<and>
   list_all (\<lambda>state. list_all (\<lambda>it. it_project_id it = 0) (st_iterations state))
     (wb_subchapters (wr_batch example_result)) \<and>
   map_sum id (\<lambda>r. wb_project_id (wr_batch r))
     (generate_writing_batch offset_uuid4 (example_payload 1) (Inr example_writer_batch)
        example_critics example_implementers) = Inr 50"
  using example_run offset_run
    unparsable_project_id_replaced [of "example_payload 1" counting_uuid4
      "Inr example_writer_batch" example_critics example_implementers]
  by (simp add: example_payload_def counting_uuid4_def)

section \<open>Writing stage: total word count\<close>

text \<open>
  C9 as stated fails: a subchapter that reports a word count of 0 is a subchapter that
  reports a word count, and the total is still null.
\<close>

theorem total_word_count_counterexample:
  "generate_writing_batch counting_uuid4 (example_payload 1) (Inr example_writer_batch)
     example_critics example_implementers = Inr example_result \<and>
   map st_final_word_count (wb_subchapters (wr_batch example_result)) = [Some 0] \<and>
   wb_total_word_count (wr_batch example_result) = None"
  using example_run by (simp add: example_result_def)

lemma word_counts_add_feedback:
  assumes "add_feedback uuid4 sub feedback acc = Inr acc'"
  shows "rs_word_counts (fst acc') = rs_word_counts (fst acc)"
  using assms
  by (cases acc) (auto simp: add_feedback_def split: sum.splits option.splits)

lemma word_counts_critic_entry:
  assumes "critic_entry uuid4 p c role entry st = Inr st'"
  shows "rs_word_counts st' = rs_word_counts st"
proof -
  from assms obtain st1 new_feedback where
    l: "for_each (add_feedback uuid4 (Canonical (ce_subchapter_id entry))) (ce_feedback entry) (st, [])
          = Inr (st1, new_feedback)"
    by (auto simp: critic_entry_def Let_def split: sum.splits)
  have "rs_word_counts (fst (st1, new_feedback)) = rs_word_counts st"
    by (rule for_each_invariant [OF l, where P = "\<lambda>a. rs_word_counts (fst a) = rs_word_counts st"])
       (auto dest: word_counts_add_feedback)
  with assms l show ?thesis
    by (auto simp: critic_entry_def Let_def split: sum.splits option.splits)
qed

lemma word_counts_critic_pass:
  assumes "critic_pass uuid4 p c role critic_batch st = Inr st'"
  shows "rs_word_counts st' = rs_word_counts st"
proof -
  from assms obtain st1 where
    l: "for_each (critic_entry uuid4 p c role) (cb_subchapters critic_batch) st = Inr st1"
    by (auto simp: critic_pass_def split: sum.splits)
  have "rs_word_counts st1 = rs_word_counts st"
    by (rule for_each_invariant [OF l, where P = "\<lambda>a. rs_word_counts a = rs_word_counts st"])
       (auto dest: word_counts_critic_entry)
  with assms l show ?thesis
    by (auto simp: critic_pass_def split: sum.splits if_splits)
qed

lemma word_counts_loop:
  assumes "for_each body entries st = Inr st'"
      and "\<And>entry t t'. body entry t = Inr t' \<Longrightarrow>
             rs_word_counts t' = (rs_word_counts t)(fst (report entry) \<mapsto> snd (report entry))"
  shows "rs_word_counts st' = rs_word_counts st ++ map_of (rev (map report entries))"
  using assms(1)
proof (induction entries arbitrary: st)
  case Nil
  then show ?case by simp
next
  case (Cons entry entries)
  from Cons.prems obtain st1 where
    step: "body entry st = Inr st1" and rest: "for_each body entries st1 = Inr st'"
    by (auto split: sum.splits)
  have "rs_word_counts st' = rs_word_counts st1 ++ map_of (rev (map report entries))"
    by (rule Cons.IH [OF rest])
  also have "rs_word_counts st1 = (rs_word_counts st)(fst (report entry) \<mapsto> snd (report entry))"
    by (rule assms(2) [OF step])
  finally show ?case
    by (simp add: map_add_upd_left fun_eq_iff map_add_def split: option.splits)
qed

lemma word_counts_writer_pass:
  assumes "writer_pass uuid4 p writer_batch st = Inr st'"
  shows "rs_word_counts st' = rs_word_counts st ++ map_of (rev (writer_reports writer_batch))"
proof -
  from assms obtain st1 where
    l: "for_each (writer_entry uuid4 p) (wdb_subchapters writer_batch) st = Inr st1"
    by (auto simp: writer_pass_def split: sum.splits)
  have "rs_word_counts st1 = rs_word_counts st ++
          map_of (rev (map (\<lambda>entry. (Canonical (wd_subchapter_id entry), wd_word_count entry))
                         (wdb_subchapters writer_batch)))"
    by (rule word_counts_loop [OF l])
       (auto simp: writer_entry_def Let_def split: sum.splits option.splits)
  with assms l show ?thesis
    by (auto simp: writer_pass_def writer_reports_def split: sum.splits if_splits)
qed

lemma word_counts_implement_pass:
  assumes "implement_pass uuid4 p c role implementation_batch st = Inr st'"
  shows "rs_word_counts st' =
           rs_word_counts st ++ map_of (rev (implementer_reports (Inr implementation_batch)))"
proof -
  from assms obtain st1 where
    l: "for_each (implement_entry uuid4 p c role) (ib_subchapters implementation_batch) st = Inr st1"
    by (auto simp: implement_pass_def split: sum.splits)
  have "rs_word_counts st1 = rs_word_counts st ++
          map_of (rev (map (\<lambda>entry. (Canonical (ie_subchapter_id entry), ie_word_count entry))
                         (ib_subchapters implementation_batch)))"
    by (rule word_counts_loop [OF l])
       (auto simp: implement_entry_def Let_def split: sum.splits option.splits)
  with assms l show ?thesis
    by (auto simp: implement_pass_def implementer_reports_def split: sum.splits if_splits)
qed

lemma word_counts_run_cycle:
  assumes "run_cycle uuid4 p i critic_response implement_response st = Inr st'"
  shows "rs_word_counts st' =
           rs_word_counts st ++ map_of (rev (implementer_reports implement_response))"
proof -
  from assms obtain critic_batch st1 implementation_batch where
    c: "critic_pass uuid4 p i (critic_roles ! i) critic_batch st = Inr st1" and
    r: "implement_response = Inr implementation_batch" and
    m: "implement_pass uuid4 p i (implement_roles ! i) implementation_batch st1 = Inr st'"
    by (auto simp: run_cycle_def split: if_splits sum.splits)
  from word_counts_critic_pass [OF c] word_counts_implement_pass [OF m] r
  show ?thesis by simp
qed

lemma word_counts_run_cycles:
  assumes "run_cycles uuid4 p critics implementers i n st = Inr st'"
  shows "rs_word_counts st' =
           rs_word_counts st ++
           map_of (rev (concat (map (\<lambda>j. implementer_reports (implementers j)) [i..<i + n])))"
  using assms
proof (induction n arbitrary: i st)
  case 0
  then show ?case by simp
next
  case (Suc n)
  from Suc.prems obtain st1 where
    step: "run_cycle uuid4 p i (critics i) (implementers i) st = Inr st1" and
    rest: "run_cycles uuid4 p critics implementers (Suc i) n st1 = Inr st'"
    by (auto split: sum.splits)
  have u: "[i..<i + Suc n] = i # [Suc i..<Suc i + n]"
    by (simp add: upt_rec)
  have s1: "rs_word_counts st1 =
      rs_word_counts st ++ map_of (rev (implementer_reports (implementers i)))"
    by (rule word_counts_run_cycle [OF step])
  from Suc.IH [OF rest] s1 show ?case
    unfolding u by (simp add: map_add_assoc)
qed

lemma word_counts_writing_passes:
  assumes "writing_passes uuid4 payload (Inr writer_batch) critics implementers =
             Inr (project_uuid, cycle_count, meta_lookup, st)"
  shows "cycle_count = resolve_cycle_count (wp_cycle_count payload)"
    and "meta_lookup = build_meta_lookup (wp_subchapters payload) []"
    and "rs_word_counts st = map_of (rev (word_count_reports writer_batch implementers cycle_count))"
proof -
  obtain p drawn where p: "resolve_project_uuid uuid4 (wp_project_id payload) = (p, drawn)"
    by (cases "resolve_project_uuid uuid4 (wp_project_id payload)")
  from assms p obtain st0 where
    w: "writer_pass uuid4 p writer_batch
          (initial_state drawn (build_meta_lookup (wp_subchapters payload) [])) = Inr st0" and
    c: "run_cycles uuid4 p critics implementers 0 (resolve_cycle_count (wp_cycle_count payload)) st0
          = Inr st" and
    e: "cycle_count = resolve_cycle_count (wp_cycle_count payload)"
       "meta_lookup = build_meta_lookup (wp_subchapters payload) []"
    by (auto simp: writing_passes_def Let_def split: if_splits sum.splits)
  show "cycle_count = resolve_cycle_count (wp_cycle_count payload)"
    and "meta_lookup = build_meta_lookup (wp_subchapters payload) []" using e by simp_all
  from word_counts_writer_pass [OF w] word_counts_run_cycles [OF c] e
  show "rs_word_counts st = map_of (rev (word_count_reports writer_batch implementers cycle_count))"
    by (simp add: word_count_reports_def initial_state_def)
qed

text \<open>
  The dictionary \<^verbatim>\<open>word_counts\<close> at the end of the passes holds, for each subchapter, the
  count of its last report.
\<close>

lemma final_word_counts:
  assumes "list_all2 (state_matches st) items states"
  shows "map st_final_word_count states =
           map (\<lambda>item. case rs_word_counts st (fst item) of None \<Rightarrow> None | Some w \<Rightarrow> w) items"
  using assms by (induction rule: list_all2_induct) (auto simp: state_matches_def)

text \<open>
  C9, amended. In the batch that a successful run returns, the final word count of each
  subchapter is the count of the last report for it, the writer's or that of the latest
  implementer entry, which replaces the earlier count also when it is null; the total word
  count is the sum of these counts over the returned subchapters, a null count contributing
  0, and it is null exactly when that sum is 0, that is when no subchapter has a positive
  latest count.
\<close>

theorem total_word_count_latest:
  assumes "generate_writing_batch uuid4 payload (Inr writer_batch) critics implementers = Inr result"
  shows "let reports = word_count_reports writer_batch implementers
                         (resolve_cycle_count (wp_cycle_count payload));
             subchapters = map fst (sorted_meta (build_meta_lookup (wp_subchapters payload) []));
             word_total = sum_list (map (\<lambda>sub. case latest_word_count reports sub of
                                                  None \<Rightarrow> 0 | Some n \<Rightarrow> n) subchapters)
         in map st_final_word_count (wb_subchapters (wr_batch result)) =
              map (latest_word_count reports) subchapters \<and>
            wb_total_word_count (wr_batch result) =
              (if word_total = 0 then None else Some word_total)"
proof -
  from assms obtain project_uuid cycle_count meta_lookup st where
    p: "writing_passes uuid4 payload (Inr writer_batch) critics implementers =
          Inr (project_uuid, cycle_count, meta_lookup, st)" and
    f: "finalise project_uuid cycle_count meta_lookup st = Inr result"
    by (rule generate_writing_batch_Inr)
  note w = word_counts_writing_passes [OF p]
  let ?reports = "word_count_reports writer_batch implementers
                    (resolve_cycle_count (wp_cycle_count payload))"
  let ?subs = "map fst (sorted_meta (build_meta_lookup (wp_subchapters payload) []))"
  have c: "map st_final_word_count (wb_subchapters (wr_batch result)) =
             map (latest_word_count ?reports) ?subs"
    using final_word_counts [OF finalise_result(1) [OF f]] w
    by (simp add: latest_word_count_def comp_def)
  have "sum_list (map (\<lambda>s. case st_final_word_count s of None \<Rightarrow> 0 | Some n \<Rightarrow> n)
                   (wb_subchapters (wr_batch result))) =
        sum_list (map (\<lambda>w. case w of None \<Rightarrow> 0 | Some n \<Rightarrow> n)
                   (map st_final_word_count (wb_subchapters (wr_batch result))))"
    by (simp add: comp_def)
  also have "\<dots> = sum_list (map (\<lambda>sub. case latest_word_count ?reports sub of
                                           None \<Rightarrow> 0 | Some n \<Rightarrow> n) ?subs)"
    unfolding c by (simp add: comp_def)
  finally have t: "wb_total_word_count (wr_batch result) =
      (if sum_list (map (\<lambda>sub. case latest_word_count ?reports sub of
                                           None \<Rightarrow> 0 | Some n \<Rightarrow> n) ?subs) = 0 then None
       else Some (sum_list (map (\<lambda>sub. case latest_word_count ?reports sub of
                                           None \<Rightarrow> 0 | Some n \<Rightarrow> n) ?subs)))"
    using finalise_result(3) [OF f] by (simp add: Let_def)
  show ?thesis using c t by (simp add: Let_def)
qed

text \<open>
  On the example the latest counts are 290, 120 and null: the total is 410, neither the sum
  of all reports nor that of the writer's.
\<close>

lemma counted_run:
  "\<exists>result. generate_writing_batch counting_uuid4 counted_payload (Inr counted_writer_batch)
     silent_critics counted_implementers = Inr result"
  by (simp add: writing_defs counting_uuid4_def counted_payload_def counted_writer_batch_def
      silent_critics_def counted_implementers_def Let_def numeral_2_eq_2)

theorem total_word_count_latest_witness:
  "\<exists>result. generate_writing_batch counting_uuid4 counted_payload (Inr counted_writer_batch)
              silent_critics counted_implementers = Inr result \<and>
            map (Canonical \<circ> st_subchapter_id) (wb_subchapters (wr_batch result)) =
              [Canonical 100, Canonical 200, Canonical 300] \<and>
            map st_final_word_count (wb_subchapters (wr_batch result)) =
              [Some 290, Some 120, None] \<and>
            wb_total_word_count (wr_batch result) = Some 410"
proof -
  from counted_run obtain result where
    r: "generate_writing_batch counting_uuid4 counted_payload (Inr counted_writer_batch)
          silent_critics counted_implementers = Inr result" ..
  have ids: "map (Canonical \<circ> st_subchapter_id) (wb_subchapters (wr_batch result)) =
              [Canonical 100, Canonical 200, Canonical 300]"
    using r
    by (auto simp: writing_defs counting_uuid4_def counted_payload_def counted_writer_batch_def
      silent_critics_def counted_implementers_def Let_def numeral_2_eq_2)
  from total_word_count_latest [OF r] ids r show ?thesis
    by (simp add: Let_def word_count_reports_def writer_reports_def implementer_reports_def
        latest_word_count_def resolve_cycle_count_def sorted_meta_def meta_of_item_def
        counted_payload_def counted_writer_batch_def counted_implementers_def upt_rec)
qed

section \<open>Writing stage: the life of a feedback item\<close>

lemma for_each_rel:
  assumes "for_each body xs s = Inr s'"
      and "\<And>t. R t t"
      and "\<And>a b c. R a b \<Longrightarrow> R b c \<Longrightarrow> R a c"
      and "\<And>x t t'. body x t = Inr t' \<Longrightarrow> R t t'"
  shows "R s s'"
  using assms(1)
proof (induction xs arbitrary: s)
  case Nil
  then show ?case using assms(2) by simp
next
  case (Cons x xs)
  from Cons.prems obtain t where t: "body x s = Inr t" "for_each body xs t = Inr s'"
    by (auto split: sum.splits)
  from assms(4) [OF t(1)] Cons.IH [OF t(2)] show ?case by (rule assms(3))
qed

lemma feedback_of_upd [simp]:
  "feedback_of (st \<lparr> rs_feedback_map := (rs_feedback_map st)(sub \<mapsto> x) \<rparr>) k =
     (if k = sub then x else feedback_of st k)"
  by (simp add: feedback_of_def)

lemma feedback_of_other_fields [simp]:
  "feedback_of (st \<lparr> rs_next_uuid := n \<rparr>) = feedback_of st"
  "feedback_of (st \<lparr> rs_iterations_map := im \<rparr>) = feedback_of st"
  "feedback_of (st \<lparr> rs_current_drafts := cd \<rparr>) = feedback_of st"
  "feedback_of (st \<lparr> rs_word_counts := wc \<rparr>) = feedback_of st"
  "feedback_of (st \<lparr> rs_summary_parts := sp \<rparr>) = feedback_of st"
  "feedback_of (st \<lparr> rs_critic_summaries := cs \<rparr>) = feedback_of st"
  by (simp_all add: feedback_of_def fun_eq_iff)

lemma iterations_of_upd [simp]:
  "iterations_of (st \<lparr> rs_iterations_map := (rs_iterations_map st)(sub \<mapsto> x) \<rparr>) k =
     (if k = sub then x else iterations_of st k)"
  by (simp add: iterations_of_def)

lemma iterations_of_other_fields [simp]:
  "iterations_of (st \<lparr> rs_next_uuid := n \<rparr>) = iterations_of st"
  "iterations_of (st \<lparr> rs_feedback_map := fm \<rparr>) = iterations_of st"
  "iterations_of (st \<lparr> rs_current_drafts := cd \<rparr>) = iterations_of st"
  "iterations_of (st \<lparr> rs_word_counts := wc \<rparr>) = iterations_of st"
  "iterations_of (st \<lparr> rs_summary_parts := sp \<rparr>) = iterations_of st"
  "iterations_of (st \<lparr> rs_critic_summaries := cs \<rparr>) = iterations_of st"
  by (simp_all add: iterations_of_def fun_eq_iff)

text \<open>critic_created is a preorder.\<close>

lemma critic_created_refl: "critic_created uuid4 st st"
  by (simp add: critic_created_def)

lemma critic_created_trans:
  assumes "critic_created uuid4 a b" "critic_created uuid4 b c"
  shows "critic_created uuid4 a c"
proof -
  from assms have le: "rs_next_uuid a \<le> rs_next_uuid b" "rs_next_uuid b \<le> rs_next_uuid c"
    by (auto simp: critic_created_def)
  have "\<exists>new. feedback_of c sub = feedback_of a sub @ new \<and>
         list_all (\<lambda>f. \<not> fb_addressed f \<and> fb_addressed_in_iteration f = None \<and>
                       (\<exists>m. rs_next_uuid a \<le> m \<and> m < rs_next_uuid c \<and> fb_id f = uuid4 m)) new"
    for sub
  proof -
    from assms(1) obtain n1 where n1: "feedback_of b sub = feedback_of a sub @ n1"
      "list_all (\<lambda>f. \<not> fb_addressed f \<and> fb_addressed_in_iteration f = None \<and>
                       (\<exists>m. rs_next_uuid a \<le> m \<and> m < rs_next_uuid b \<and> fb_id f = uuid4 m)) n1"
      unfolding critic_created_def by blast
    from assms(2) obtain n2 where n2: "feedback_of c sub = feedback_of b sub @ n2"
      "list_all (\<lambda>f. \<not> fb_addressed f \<and> fb_addressed_in_iteration f = None \<and>
                       (\<exists>m. rs_next_uuid b \<le> m \<and> m < rs_next_uuid c \<and> fb_id f = uuid4 m)) n2"
      unfolding critic_created_def by blast
    have a: "list_all (\<lambda>f. \<not> fb_addressed f \<and> fb_addressed_in_iteration f = None \<and>
                       (\<exists>m. rs_next_uuid a \<le> m \<and> m < rs_next_uuid c \<and> fb_id f = uuid4 m)) n1"
      by (rule list.pred_mono_strong [OF n1(2)]) (use le(2) in \<open>meson less_le_trans\<close>)
    have b: "list_all (\<lambda>f. \<not> fb_addressed f \<and> fb_addressed_in_iteration f = None \<and>
                       (\<exists>m. rs_next_uuid a \<le> m \<and> m < rs_next_uuid c \<and> fb_id f = uuid4 m)) n2"
      by (rule list.pred_mono_strong [OF n2(2)]) (use le(1) in \<open>meson le_trans\<close>)
    show ?thesis
      by (rule exI [of _ "n1 @ n2"]) (use n1(1) n2(1) a b in simp)
  qed
  with le show ?thesis by (simp add: critic_created_def)
qed

lemma feedback_wf_next_mono:
  assumes "feedback_wf uuid4 st" "feedback_of st' = feedback_of st"
      and "rs_next_uuid st \<le> rs_next_uuid st'"
  shows "feedback_wf uuid4 st'"
proof -
  have "list_all (\<lambda>f. fb_addressed f = (fb_addressed_in_iteration f \<noteq> None) \<and>
                           (\<exists>m<rs_next_uuid st'. fb_id f = uuid4 m)) (feedback_of st sub)" for sub
  proof -
    from assms(1) have
      "list_all (\<lambda>f. fb_addressed f = (fb_addressed_in_iteration f \<noteq> None) \<and>
                           (\<exists>m<rs_next_uuid st. fb_id f = uuid4 m)) (feedback_of st sub)"
      by (simp add: feedback_wf_def)
    then show ?thesis
      by (rule list.pred_mono_strong) (use assms(3) in \<open>meson less_le_trans\<close>)
  qed
  with assms(1,2) show ?thesis by (simp add: feedback_wf_def)
qed

lemma feedback_wf_append:
  assumes inj: "inj uuid4" and wf: "feedback_wf uuid4 st"
      and fo: "feedback_of st' = (feedback_of st)(sub := feedback_of st sub @ [item])"
      and nx: "rs_next_uuid st' = Suc (rs_next_uuid st)"
      and it: "fb_id item = uuid4 (rs_next_uuid st)" "\<not> fb_addressed item"
              "fb_addressed_in_iteration item = None"
  shows "feedback_wf uuid4 st'"
proof -
  let ?P = "\<lambda>n f. fb_addressed f = (fb_addressed_in_iteration f \<noteq> None) \<and>
                           (\<exists>m<n. fb_id f = uuid4 m)"
  have old: "list_all (?P (rs_next_uuid st)) (feedback_of st k)" for k
    using wf by (simp add: feedback_wf_def)
  have mono: "?P (rs_next_uuid st) f \<Longrightarrow> ?P (rs_next_uuid st') f" for f
    unfolding nx by (meson less_SucI)
  have old': "list_all (?P (rs_next_uuid st')) (feedback_of st k)" for k
    by (rule list.pred_mono_strong [OF old]) (rule mono)
  have new: "?P (rs_next_uuid st') item"
    using it nx by auto
  have p1: "list_all (?P (rs_next_uuid st')) (feedback_of st' k)" for k
    using old' [of k] new by (cases "k = sub") (simp_all add: fo)
  have old_id: "fb_id (feedback_of st k ! i) \<noteq> fb_id item" if "i < length (feedback_of st k)" for k i
  proof -
    from old [of k] that obtain m where "m < rs_next_uuid st" "fb_id (feedback_of st k ! i) = uuid4 m"
      by (auto simp: list_all_length)
    with it(1) inj show ?thesis by (auto dest: injD)
  qed
  have uniq: "\<And>k k' i i'. i < length (feedback_of st k) \<Longrightarrow> i' < length (feedback_of st k') \<Longrightarrow>
      fb_id (feedback_of st k ! i) = fb_id (feedback_of st k' ! i') \<Longrightarrow> k = k' \<and> i = i'"
    using wf unfolding feedback_wf_def by blast
  have p2: "k = k' \<and> i = i'"
    if h: "i < length (feedback_of st' k)" "i' < length (feedback_of st' k')"
          "fb_id (feedback_of st' k ! i) = fb_id (feedback_of st' k' ! i')" for k k' i i'
  proof -
    have cases_k: "feedback_of st' k ! i = (if k = sub \<and> i = length (feedback_of st sub) then item
        else feedback_of st k ! i)"
      using h(1) by (auto simp: fo nth_append)
    have cases_k': "feedback_of st' k' ! i' = (if k' = sub \<and> i' = length (feedback_of st sub) then item
        else feedback_of st k' ! i')"
      using h(2) by (auto simp: fo nth_append)
    have in_k: "\<not> (k = sub \<and> i = length (feedback_of st sub)) \<Longrightarrow> i < length (feedback_of st k)"
      using h(1) by (auto simp: fo split: if_splits)
    have in_k': "\<not> (k' = sub \<and> i' = length (feedback_of st sub)) \<Longrightarrow> i' < length (feedback_of st k')"
      using h(2) by (auto simp: fo split: if_splits)
    show ?thesis
    proof (cases "k = sub \<and> i = length (feedback_of st sub)")
      case True
      show ?thesis
      proof (cases "k' = sub \<and> i' = length (feedback_of st sub)")
        case True
        with \<open>k = sub \<and> i = length (feedback_of st sub)\<close> show ?thesis by simp
      next
        case False
        from old_id [OF in_k' [OF False]] h(3) cases_k cases_k' True False
        show ?thesis by simp
      qed
    next
      case False
      show ?thesis
      proof (cases "k' = sub \<and> i' = length (feedback_of st sub)")
        case True
        from old_id [OF in_k [OF False]] h(3) cases_k cases_k' True False
        show ?thesis by simp
      next
        case F2: False
        from uniq [OF in_k [OF False] in_k' [OF F2]] h(3) cases_k cases_k' False F2
        show ?thesis by simp
      qed
    qed
  qed
  show ?thesis
    unfolding feedback_wf_def using p1 p2 by blast
qed

lemma resolve_item_id [simp]: "fb_id (resolve_item ids j f) = fb_id f"
  by (simp add: resolve_item_def)

lemma feedback_wf_resolve:
  assumes wf: "feedback_wf uuid4 st"
      and fo: "feedback_of st' = (feedback_of st)(sub := map (resolve_item ids j) (feedback_of st sub))"
      and nx: "rs_next_uuid st \<le> rs_next_uuid st'"
  shows "feedback_wf uuid4 st'"
proof -
  let ?P = "\<lambda>n f. fb_addressed f = (fb_addressed_in_iteration f \<noteq> None) \<and>
                           (\<exists>m<n. fb_id f = uuid4 m)"
  have old: "list_all (?P (rs_next_uuid st)) (feedback_of st k)" for k
    using wf by (simp add: feedback_wf_def)
  have old': "list_all (?P (rs_next_uuid st')) (feedback_of st k)" for k
    by (rule list.pred_mono_strong [OF old]) (use nx in \<open>meson less_le_trans\<close>)
  have res: "?P n f \<Longrightarrow> ?P n (resolve_item ids j f)" for n f
    by (auto simp: resolve_item_def)
  have mapped: "list_all (?P (rs_next_uuid st')) (map (resolve_item ids j) (feedback_of st k))" for k
    unfolding list.pred_map comp_def
    by (rule list.pred_mono_strong [OF old']) (rule res)
  have p1: "list_all (?P (rs_next_uuid st')) (feedback_of st' k)" for k
    using old' [of k] mapped [of k] by (cases "k = sub") (simp_all add: fo)
  have len: "length (feedback_of st' k) = length (feedback_of st k)" for k
    by (simp add: fo)
  have ids: "i < length (feedback_of st k) \<Longrightarrow> fb_id (feedback_of st' k ! i) = fb_id (feedback_of st k ! i)" for k i
    by (cases "k = sub") (simp_all add: fo)
  have uniq: "\<And>k k' i i'. i < length (feedback_of st k) \<Longrightarrow> i' < length (feedback_of st k') \<Longrightarrow>
      fb_id (feedback_of st k ! i) = fb_id (feedback_of st k' ! i') \<Longrightarrow> k = k' \<and> i = i'"
    using wf unfolding feedback_wf_def by blast
  have p2: "k = k' \<and> i = i'"
    if h: "i < length (feedback_of st' k)" "i' < length (feedback_of st' k')"
          "fb_id (feedback_of st' k ! i) = fb_id (feedback_of st' k' ! i')" for k k' i i'
    using uniq [of i k i' k'] h len ids by simp
  show ?thesis
    unfolding feedback_wf_def using p1 p2 by blast
qed

lemma add_feedback_step:
  assumes "add_feedback uuid4 sub fb (st, new) = Inr (st', new')"
  shows "\<exists>item. feedback_of st' = (feedback_of st)(sub := feedback_of st sub @ [item]) \<and>
           rs_next_uuid st' = Suc (rs_next_uuid st) \<and>
           fb_id item = uuid4 (rs_next_uuid st) \<and> \<not> fb_addressed item \<and>
           fb_addressed_in_iteration item = None \<and> new' = new @ [item] \<and>
           rs_iterations_map st' = rs_iterations_map st"
proof -
  from assms obtain item old where
    i: "new_DraftFeedbackItem (uuid4 (rs_next_uuid st)) (strip (cf_message fb))
             (cf_severity fb) (cf_category fb) (cf_rationale fb) = Inr item" and
    o: "rs_feedback_map st sub = Some old" and
    s: "st' = st \<lparr> rs_next_uuid := Suc (rs_next_uuid st),
                   rs_feedback_map := (rs_feedback_map st)(sub \<mapsto> old @ [item]) \<rparr>"
       "new' = new @ [item]"
    by (auto simp: add_feedback_def split: sum.splits option.splits)
  from i have p: "fb_id item = uuid4 (rs_next_uuid st)" "\<not> fb_addressed item"
      "fb_addressed_in_iteration item = None"
    by (auto simp: new_DraftFeedbackItem_def split: if_splits)
  have f: "feedback_of st' = (feedback_of st)(sub := feedback_of st sub @ [item])"
    using o by (auto simp: s(1) feedback_of_def fun_eq_iff)
  show ?thesis using p f s by auto
qed

lemma for_each_rel_set:
  assumes "for_each body xs s = Inr s'"
      and "\<And>t. R t t"
      and "\<And>a b c. R a b \<Longrightarrow> R b c \<Longrightarrow> R a c"
      and "\<And>x t t'. x \<in> set xs \<Longrightarrow> body x t = Inr t' \<Longrightarrow> R t t'"
  shows "R s s'"
  using assms(1,4)
proof (induction xs arbitrary: s)
  case Nil
  then show ?case using assms(2) by simp
next
  case (Cons x xs)
  from Cons.prems(1) obtain t where t: "body x s = Inr t" "for_each body xs t = Inr s'"
    by (auto split: sum.splits)
  have "R s t" by (rule Cons.prems(2) [OF _ t(1)]) simp
  moreover have "R t s'" by (rule Cons.IH [OF t(2)]) (rule Cons.prems(2), simp_all)
  ultimately show ?case by (rule assms(3))
qed

text \<open>Critic side.\<close>

lemma critic_step_refl: "critic_step uuid4 st st"
  by (simp add: critic_step_def critic_created_refl)

lemma critic_step_trans:
  "critic_step uuid4 a b \<Longrightarrow> critic_step uuid4 b c \<Longrightarrow> critic_step uuid4 a c"
  by (auto simp: critic_step_def intro: critic_created_trans)

lemma add_feedback_critic_step:
  assumes "add_feedback uuid4 sub fb (st, new) = Inr (st', new')"
  shows "critic_step uuid4 st st'"
proof -
  from add_feedback_step [OF assms] obtain item where
    i: "feedback_of st' = (feedback_of st)(sub := feedback_of st sub @ [item])"
       "rs_next_uuid st' = Suc (rs_next_uuid st)"
       "fb_id item = uuid4 (rs_next_uuid st)" "\<not> fb_addressed item"
       "fb_addressed_in_iteration item = None"
    by blast
  have "\<exists>new. feedback_of st' k = feedback_of st k @ new \<and>
         list_all (\<lambda>f. \<not> fb_addressed f \<and> fb_addressed_in_iteration f = None \<and>
                       (\<exists>m. rs_next_uuid st \<le> m \<and> m < rs_next_uuid st' \<and> fb_id f = uuid4 m)) new"
    for k
  proof (cases "k = sub")
    case True
    show ?thesis
      by (rule exI [of _ "[item]"]) (use True i in auto)
  next
    case False
    show ?thesis
      by (rule exI [of _ "[]"]) (use False i in auto)
  qed
  then have c: "critic_created uuid4 st st'"
    using i(2) by (simp add: critic_created_def)
  have "feedback_wf uuid4 st'" if "inj uuid4" "feedback_wf uuid4 st"
    by (rule feedback_wf_append [OF that i])
  with c show ?thesis by (simp add: critic_step_def)
qed

lemma add_feedbacks_critic_step:
  assumes "for_each (add_feedback uuid4 sub) fbs (st, new) = Inr (st', new')"
  shows "critic_step uuid4 st st'"
proof -
  have "critic_step uuid4 (fst (st, new)) (fst (st', new'))"
  proof (rule for_each_rel [where R = "\<lambda>a b. critic_step uuid4 (fst a) (fst b)", OF assms])
    show "critic_step uuid4 (fst t) (fst t)" for t :: "run_state \<times> DraftFeedbackItem list"
      by (rule critic_step_refl)
    show "critic_step uuid4 (fst a) (fst c)"
      if "critic_step uuid4 (fst a) (fst b)" "critic_step uuid4 (fst b) (fst c)"
      for a b c :: "run_state \<times> DraftFeedbackItem list"
      using that by (rule critic_step_trans)
    show "critic_step uuid4 (fst t) (fst t')"
      if "add_feedback uuid4 sub x t = Inr t'" for x t t'
      using that by (cases t, cases t') (auto dest: add_feedback_critic_step)
  qed
  then show ?thesis by simp
qed

lemma critic_step_next:
  assumes "feedback_of st' = feedback_of st" "rs_next_uuid st \<le> rs_next_uuid st'"
  shows "critic_step uuid4 st st'"
proof -
  have "critic_created uuid4 st st'"
    using assms by (simp add: critic_created_def)
  moreover have "feedback_wf uuid4 st'" if "feedback_wf uuid4 st"
    by (rule feedback_wf_next_mono [OF that assms])
  ultimately show ?thesis by (simp add: critic_step_def)
qed

lemma critic_entry_critic_step:
  assumes "critic_entry uuid4 p c rl entry st = Inr st'"
  shows "critic_step uuid4 st st'"
proof -
  from assms obtain st1 new where
    l: "for_each (add_feedback uuid4 (Canonical (ce_subchapter_id entry))) (ce_feedback entry) (st, [])
          = Inr (st1, new)" and
    f: "feedback_of st' = feedback_of st1" "rs_next_uuid st' = Suc (rs_next_uuid st1)"
    by (auto simp: critic_entry_def Let_def split: sum.splits option.splits prod.splits)
  have "critic_step uuid4 st st1" by (rule add_feedbacks_critic_step [OF l])
  moreover have "critic_step uuid4 st1 st'" by (rule critic_step_next) (use f in simp_all)
  ultimately show ?thesis by (rule critic_step_trans)
qed

lemma critic_pass_critic_step:
  assumes "critic_pass uuid4 p c rl cb st = Inr st'"
  shows "critic_step uuid4 st st'"
proof -
  from assms obtain st1 where
    l: "for_each (critic_entry uuid4 p c rl) (cb_subchapters cb) st = Inr st1" and
    f: "feedback_of st' = feedback_of st1" "rs_next_uuid st' = rs_next_uuid st1"
    by (auto simp: critic_pass_def split: sum.splits if_splits)
  have "critic_step uuid4 st st1"
    by (rule for_each_rel [where R = "critic_step uuid4", OF l])
       (auto intro: critic_step_refl critic_step_trans critic_entry_critic_step)
  moreover have "critic_step uuid4 st1 st'" by (rule critic_step_next) (use f in simp_all)
  ultimately show ?thesis by (rule critic_step_trans)
qed

lemma stamp_mark_resolved:
  assumes "fb_addressed f = (fb_addressed_in_iteration f \<noteq> None)"
  shows "stamp_iteration j (mark_resolved ids f) = resolve_item ids j f"
  using assms by (auto simp: stamp_iteration_def mark_resolved_def resolve_item_def)

lemma implement_entry_step:
  assumes wf: "feedback_wf uuid4 st"
      and run: "implement_entry uuid4 p c rl entry st = Inr st'"
  shows "implementer_resolved rl entry st st'"
    and "feedback_wf uuid4 st'"
proof -
  let ?sub = "Canonical (ie_subchapter_id entry)"
  from run obtain fbs where fbs: "rs_feedback_map st ?sub = Some fbs"
    by (auto simp: implement_entry_def Let_def split: option.splits)
  from run fbs obtain it where
    it: "new_DraftIteration (uuid4 (rs_next_uuid st)) p (ie_subchapter_id entry) c rl
           (strip (ie_content entry)) (iteration_summary_of entry) (ie_word_count entry) [] = Inr it"
    by (auto simp: implement_entry_def Let_def split: sum.splits)
  from run fbs it obtain its where its: "rs_iterations_map st ?sub = Some its"
    by (auto simp: implement_entry_def Let_def split: option.splits)
  define stamped where
    "stamped = map (stamp_iteration (it_id it)) (map (mark_resolved (ie_resolved_feedback entry)) fbs)"
  define recorded where "recorded = it \<lparr> it_feedback := stamped \<rparr>"
  from run fbs it its have st': "st' =
      st \<lparr> rs_current_drafts := (rs_current_drafts st)(?sub \<mapsto> ie_content entry),
           rs_word_counts := (rs_word_counts st)(?sub \<mapsto> ie_word_count entry),
           rs_next_uuid := Suc (rs_next_uuid st),
           rs_feedback_map := (rs_feedback_map st)(?sub \<mapsto> stamped),
           rs_iterations_map := (rs_iterations_map st)(?sub \<mapsto> its @ [recorded]) \<rparr>"
    by (simp add: implement_entry_def Let_def stamped_def recorded_def)
  have fo: "feedback_of st ?sub = fbs" using fbs by (simp add: feedback_of_def)
  have io: "iterations_of st ?sub = its" using its by (simp add: iterations_of_def)
  have role: "it_role recorded = rl" "it_id recorded = it_id it" "it_feedback recorded = stamped"
    using it by (auto simp: recorded_def new_DraftIteration_def split: if_splits)
  have inv: "list_all (\<lambda>f. fb_addressed f = (fb_addressed_in_iteration f \<noteq> None)) fbs"
  proof -
    from wf have "list_all (\<lambda>f. fb_addressed f = (fb_addressed_in_iteration f \<noteq> None) \<and>
                           (\<exists>m<rs_next_uuid st. fb_id f = uuid4 m)) (feedback_of st ?sub)"
      by (simp add: feedback_wf_def)
    then show ?thesis unfolding fo by (rule list.pred_mono_strong) simp
  qed
  have stamped: "stamped = map (resolve_item (ie_resolved_feedback entry) (it_id it)) fbs"
    using inv unfolding stamped_def
    by (induction fbs) (simp_all add: stamp_mark_resolved)
  have fo': "feedback_of st' =
      (feedback_of st)(?sub := map (resolve_item (ie_resolved_feedback entry) (it_id it))
                                 (feedback_of st ?sub))"
    by (auto simp: st' feedback_of_def fun_eq_iff stamped fbs)
  have io': "iterations_of st' ?sub = iterations_of st ?sub @ [recorded]"
    by (simp add: st' iterations_of_def its)
  show "implementer_resolved rl entry st st'"
    unfolding implementer_resolved_def
    by (rule exI [of _ recorded]) (simp add: io' role fo' fo stamped)
  show "feedback_wf uuid4 st'"
    by (rule feedback_wf_resolve [OF wf fo']) (simp add: st')
qed

text \<open>Persistence of items.\<close>

lemma item_persists_refl: "item_persists R f f"
  by (simp add: item_persists_def)

lemma item_persists_mono: "item_persists R f g \<Longrightarrow> R \<subseteq> R' \<Longrightarrow> item_persists R' f g"
  by (auto simp: item_persists_def)

lemma item_persists_trans:
  assumes "item_persists R1 f g" "item_persists R2 g h"
  shows "item_persists (R1 \<union> R2) f h"
proof -
  from assms have g: "g = f \<lparr> fb_addressed := fb_addressed g,
       fb_addressed_in_iteration := fb_addressed_in_iteration g \<rparr>"
    and h: "h = g \<lparr> fb_addressed := fb_addressed h,
       fb_addressed_in_iteration := fb_addressed_in_iteration h \<rparr>"
    by (simp_all add: item_persists_def)
  have id: "fb_id g = fb_id f" by (subst g) simp
  have 1: "h = f \<lparr> fb_addressed := fb_addressed h,
       fb_addressed_in_iteration := fb_addressed_in_iteration h \<rparr>"
    by (subst h, subst g) simp
  have 2: "fb_addressed f \<longrightarrow> fb_addressed h"
    using assms by (simp add: item_persists_def)
  have 3: "fb_id f \<notin> R1 \<union> R2 \<longrightarrow> h = f"
    using assms id by (auto simp: item_persists_def)
  show ?thesis unfolding item_persists_def using 1 2 3 by blast
qed

lemma item_persists_resolve: "item_persists (set ids) f (resolve_item ids j f)"
  by (simp add: item_persists_def resolve_item_def)

lemma feedback_persists_refl: "feedback_persists R st st"
proof -
  have "\<exists>kept new. feedback_of st sub = kept @ new \<and>
      list_all2 (item_persists (R sub)) (feedback_of st sub) kept" for sub
    by (rule exI [of _ "feedback_of st sub"], rule exI [of _ "[]"])
       (simp add: list_all2_refl item_persists_refl)
  then show ?thesis by (simp add: feedback_persists_def)
qed

lemma feedback_persists_mono:
  assumes "feedback_persists R st st'" "\<And>sub. R sub \<subseteq> R' sub"
  shows "feedback_persists R' st st'"
proof -
  have "\<exists>kept new. feedback_of st' sub = kept @ new \<and>
      list_all2 (item_persists (R' sub)) (feedback_of st sub) kept" for sub
  proof -
    from assms(1) obtain kept new where k: "feedback_of st' sub = kept @ new"
      "list_all2 (item_persists (R sub)) (feedback_of st sub) kept"
      unfolding feedback_persists_def by blast
    have "list_all2 (item_persists (R' sub)) (feedback_of st sub) kept"
      by (rule list_all2_mono [OF k(2)]) (rule item_persists_mono, assumption, rule assms(2))
    with k(1) show ?thesis by blast
  qed
  then show ?thesis by (simp add: feedback_persists_def)
qed

lemma feedback_persists_trans:
  assumes "feedback_persists R1 a b" "feedback_persists R2 b c"
  shows "feedback_persists (\<lambda>sub. R1 sub \<union> R2 sub) a c"
proof -
  have "\<exists>kept new. feedback_of c sub = kept @ new \<and>
      list_all2 (item_persists (R1 sub \<union> R2 sub)) (feedback_of a sub) kept" for sub
  proof -
    from assms(1) obtain k1 n1 where k1: "feedback_of b sub = k1 @ n1"
      "list_all2 (item_persists (R1 sub)) (feedback_of a sub) k1"
      unfolding feedback_persists_def by blast
    from assms(2) obtain k2 n2 where k2: "feedback_of c sub = k2 @ n2"
      "list_all2 (item_persists (R2 sub)) (feedback_of b sub) k2"
      unfolding feedback_persists_def by blast
    from k2(2) [unfolded k1(1)] obtain k2a k2b where
      s: "k2 = k2a @ k2b" "list_all2 (item_persists (R2 sub)) k1 k2a"
      by (auto simp: list_all2_append1)
    have "list_all2 (item_persists (R1 sub \<union> R2 sub)) (feedback_of a sub) k2a"
      by (rule list_all2_trans [OF _ k1(2) s(2)]) (rule item_persists_trans)
    then show ?thesis using k2(1) s(1) by auto
  qed
  then show ?thesis by (simp add: feedback_persists_def)
qed

lemma critic_created_persists:
  assumes "critic_created uuid4 st st'"
  shows "feedback_persists (\<lambda>sub. {}) st st'"
proof -
  have "\<exists>kept new. feedback_of st' sub = kept @ new \<and>
      list_all2 (item_persists {}) (feedback_of st sub) kept" for sub
  proof -
    from assms obtain new where "feedback_of st' sub = feedback_of st sub @ new"
      unfolding critic_created_def by blast
    then show ?thesis
      by (intro exI [of _ "feedback_of st sub"] exI [of _ new])
         (simp add: list_all2_refl item_persists_refl)
  qed
  then show ?thesis by (simp add: feedback_persists_def)
qed

lemma implementer_resolved_persists:
  assumes "implementer_resolved rl entry st st'"
  shows "feedback_persists (entries_reported [entry]) st st'"
proof -
  let ?sub = "Canonical (ie_subchapter_id entry)"
  from assms obtain recorded :: DraftIteration where
    r: "feedback_of st' ?sub =
          map (resolve_item (ie_resolved_feedback entry) (it_id recorded)) (feedback_of st ?sub)"
       "\<forall>other. other \<noteq> ?sub \<longrightarrow> feedback_of st' other = feedback_of st other"
    unfolding implementer_resolved_def by blast
  have "\<exists>kept new. feedback_of st' sub = kept @ new \<and>
      list_all2 (item_persists (entries_reported [entry] sub)) (feedback_of st sub) kept" for sub
  proof (cases "sub = ?sub")
    case True
    have "list_all2 (item_persists (set (ie_resolved_feedback entry))) (feedback_of st ?sub)
            (map (resolve_item (ie_resolved_feedback entry) (it_id recorded)) (feedback_of st ?sub))"
      by (simp add: list_all2_map2 list_all2_refl item_persists_resolve)
    then show ?thesis
      by (intro exI [of _ "feedback_of st' sub"] exI [of _ "[]"])
         (simp add: True r(1) entries_reported_def)
  next
    case False
    then show ?thesis
      by (intro exI [of _ "feedback_of st' sub"] exI [of _ "[]"])
         (simp add: r(2) list_all2_refl item_persists_refl)
  qed
  then show ?thesis by (simp add: feedback_persists_def)
qed

lemma feedback_wf_cong:
  assumes "feedback_of st' = feedback_of st" "rs_next_uuid st' = rs_next_uuid st"
  shows "feedback_wf uuid4 st' = feedback_wf uuid4 st"
  using assms by (simp add: feedback_wf_def)

lemma feedback_persists_cong:
  assumes "feedback_of st' = feedback_of st1"
  shows "feedback_persists R st st' = feedback_persists R st st1"
  using assms by (simp add: feedback_persists_def)

lemma entries_reported_member:
  "x \<in> set entries \<Longrightarrow> entries_reported [x] sub \<subseteq> entries_reported entries sub"
  by (auto simp: entries_reported_def)

lemma implement_step_refl: "implement_step uuid4 R st st"
  by (simp add: implement_step_def feedback_persists_refl)

lemma implement_step_trans:
  assumes "implement_step uuid4 R a b" "implement_step uuid4 R b c"
  shows "implement_step uuid4 R a c"
proof -
  have "feedback_wf uuid4 c \<and> feedback_persists R a c" if wf: "feedback_wf uuid4 a"
  proof -
    from assms(1) wf have b: "feedback_wf uuid4 b" "feedback_persists R a b"
      by (simp_all add: implement_step_def)
    from assms(2) b(1) have c: "feedback_wf uuid4 c" "feedback_persists R b c"
      by (simp_all add: implement_step_def)
    from feedback_persists_trans [OF b(2) c(2)] have "feedback_persists R a c" by simp
    with c(1) show ?thesis by simp
  qed
  then show ?thesis by (simp add: implement_step_def)
qed

lemma implement_entry_implement_step:
  assumes "x \<in> set entries" "implement_entry uuid4 p c rl x st = Inr st'"
  shows "implement_step uuid4 (entries_reported entries) st st'"
proof -
  have "feedback_wf uuid4 st' \<and> feedback_persists (entries_reported entries) st st'"
    if wf: "feedback_wf uuid4 st"
  proof -
    from implement_entry_step [OF wf assms(2)] have
      r: "implementer_resolved rl x st st'" and w: "feedback_wf uuid4 st'" .
    have "feedback_persists (entries_reported entries) st st'"
      by (rule feedback_persists_mono [OF implementer_resolved_persists [OF r]])
         (rule entries_reported_member [OF assms(1)])
    with w show ?thesis by simp
  qed
  then show ?thesis by (simp add: implement_step_def)
qed

lemma implement_pass_step:
  assumes wf: "feedback_wf uuid4 st"
      and run: "implement_pass uuid4 p c rl ib st = Inr st'"
  shows "feedback_wf uuid4 st'"
    and "feedback_persists (entries_reported (ib_subchapters ib)) st st'"
proof -
  from run obtain st1 where
    l: "for_each (implement_entry uuid4 p c rl) (ib_subchapters ib) st = Inr st1" and
    f: "feedback_of st' = feedback_of st1" "rs_next_uuid st' = rs_next_uuid st1"
    by (auto simp: implement_pass_def split: sum.splits if_splits)
  have "implement_step uuid4 (entries_reported (ib_subchapters ib)) st st1"
    by (rule for_each_rel_set
          [where R = "implement_step uuid4 (entries_reported (ib_subchapters ib))", OF l])
       (auto intro: implement_step_refl implement_step_trans implement_entry_implement_step)
  with wf have s: "feedback_wf uuid4 st1"
      "feedback_persists (entries_reported (ib_subchapters ib)) st st1"
    by (simp_all add: implement_step_def)
  show "feedback_wf uuid4 st'"
    using s(1) feedback_wf_cong [OF f] by simp
  show "feedback_persists (entries_reported (ib_subchapters ib)) st st'"
    using s(2) feedback_persists_cong [OF f(1)] by simp
qed

lemma run_cycle_step:
  assumes inj: "inj uuid4" and wf: "feedback_wf uuid4 st"
      and run: "run_cycle uuid4 p i cr ir st = Inr st'"
  shows "feedback_wf uuid4 st'"
    and "feedback_persists (response_reported ir) st st'"
proof -
  from run obtain cb ib st1 where
    c: "critic_pass uuid4 p i (critic_roles ! i) cb st = Inr st1" and
    ir: "ir = Inr ib" and
    m: "implement_pass uuid4 p i (implement_roles ! i) ib st1 = Inr st'"
    by (auto simp: run_cycle_def split: if_splits sum.splits)
  from critic_pass_critic_step [OF c] inj wf have
    c1: "critic_created uuid4 st st1" "feedback_wf uuid4 st1"
    by (simp_all add: critic_step_def)
  from implement_pass_step [OF c1(2) m] have
    m1: "feedback_wf uuid4 st'" "feedback_persists (entries_reported (ib_subchapters ib)) st1 st'" .
  show "feedback_wf uuid4 st'" by (rule m1(1))
  show "feedback_persists (response_reported ir) st st'"
    by (rule feedback_persists_mono
          [OF feedback_persists_trans [OF critic_created_persists [OF c1(1)] m1(2)]])
       (simp add: response_reported_def ir)
qed

lemma run_cycles_step:
  assumes inj: "inj uuid4" and wf: "feedback_wf uuid4 st"
      and run: "run_cycles uuid4 p critics implementers i n st = Inr st'"
  shows "feedback_wf uuid4 st' \<and> feedback_persists (reported_ids implementers i n) st st'"
  using wf run
proof (induction n arbitrary: i st)
  case 0
  then show ?case by (simp add: feedback_persists_refl)
next
  case (Suc n)
  from Suc.prems(2) obtain st1 where
    one: "run_cycle uuid4 p i (critics i) (implementers i) st = Inr st1" and
    rest: "run_cycles uuid4 p critics implementers (Suc i) n st1 = Inr st'"
    by (auto split: sum.splits)
  from run_cycle_step [OF inj Suc.prems(1) one] have
    s1: "feedback_wf uuid4 st1" "feedback_persists (response_reported (implementers i)) st st1" .
  from Suc.IH [OF s1(1) rest] have
    s2: "feedback_wf uuid4 st'" "feedback_persists (reported_ids implementers (Suc i) n) st1 st'"
    by simp_all
  have "feedback_persists (reported_ids implementers i (Suc n)) st st'"
    by (rule feedback_persists_mono [OF feedback_persists_trans [OF s1(2) s2(2)]]) simp
  with s2(1) show ?case by blast
qed

text \<open>Before the first cycle.\<close>

lemma feedback_of_initial: "feedback_of (initial_state k meta_lookup) sub = []"
  by (auto simp: feedback_of_def initial_state_def split: option.splits dest: map_of_empty_lists)

lemma feedback_wf_initial: "feedback_wf uuid4 (initial_state k meta_lookup)"
  by (simp add: feedback_wf_def feedback_of_initial)

lemma writer_entry_feedback:
  assumes "writer_entry uuid4 p e st = Inr st'"
  shows "feedback_of st' = feedback_of st \<and> rs_next_uuid st \<le> rs_next_uuid st'"
  using assms
  by (auto simp: writer_entry_def Let_def split: sum.splits option.splits)

lemma writer_pass_feedback:
  assumes "writer_pass uuid4 p wb st = Inr st'"
  shows "feedback_of st' = feedback_of st \<and> rs_next_uuid st \<le> rs_next_uuid st'"
proof -
  from assms obtain st1 where
    l: "for_each (writer_entry uuid4 p) (wdb_subchapters wb) st = Inr st1" and
    f: "feedback_of st' = feedback_of st1" "rs_next_uuid st' = rs_next_uuid st1"
    by (auto simp: writer_pass_def split: sum.splits if_splits)
  have "feedback_of st1 = feedback_of st \<and> rs_next_uuid st \<le> rs_next_uuid st1"
    by (rule for_each_rel
          [where R = "\<lambda>a b. feedback_of b = feedback_of a \<and> rs_next_uuid a \<le> rs_next_uuid b", OF l])
       (auto dest: writer_entry_feedback)
  with f show ?thesis by simp
qed

text \<open>
  C2, amended. With distinct \<^verbatim>\<open>uuid4\<close> values and from any run state that satisfies
  the invariant \<open>feedback_wf\<close> (the state before the first cycle does, and every step
  keeps it, so ids stay unique):
  \<^item> a critic pass leaves the existing items as they are and appends the new ones
    unaddressed, each with an id drawn from \<^verbatim>\<open>uuid4\<close> during the pass (the critic's
    output has no id field);
  \<^item> an implementer entry marks exactly the items of its subchapter whose ids it reports,
    stamps them with the id of the iteration it records, and changes nothing else;
  \<^item> over any further cycles every item keeps its place and its content, an addressed
    item stays addressed, and an item is unchanged, \<^verbatim>\<open>addressed_in_iteration\<close>
    included, unless a later implementer entry of its subchapter reports its id.
\<close>

theorem feedback_lifecycle:
  assumes "inj uuid4" and "feedback_wf uuid4 st"
  shows "(critic_pass uuid4 p c rl cb st = Inr st1 \<longrightarrow>
            critic_created uuid4 st st1 \<and> feedback_wf uuid4 st1) \<and>
         (implement_entry uuid4 p c' rl' entry st = Inr st2 \<longrightarrow>
            implementer_resolved rl' entry st st2 \<and> feedback_wf uuid4 st2) \<and>
         (run_cycles uuid4 p critics implementers i n st = Inr st3 \<longrightarrow>
            feedback_persists (reported_ids implementers i n) st st3 \<and> feedback_wf uuid4 st3) \<and>
         (writer_pass uuid4 p wb (initial_state k meta_lookup) = Inr st0 \<longrightarrow>
            feedback_wf uuid4 st0 \<and> (\<forall>sub. feedback_of st0 sub = []))"
proof (intro conjI impI)
  assume "critic_pass uuid4 p c rl cb st = Inr st1"
  from critic_pass_critic_step [OF this] assms
  show "critic_created uuid4 st st1" "feedback_wf uuid4 st1"
    by (simp_all add: critic_step_def)
next
  assume "implement_entry uuid4 p c' rl' entry st = Inr st2"
  from implement_entry_step [OF assms(2) this]
  show "implementer_resolved rl' entry st st2" "feedback_wf uuid4 st2" .
next
  assume "run_cycles uuid4 p critics implementers i n st = Inr st3"
  from run_cycles_step [OF assms this]
  show "feedback_persists (reported_ids implementers i n) st st3" "feedback_wf uuid4 st3"
    by simp_all
next
  assume "writer_pass uuid4 p wb (initial_state k meta_lookup) = Inr st0"
  from writer_pass_feedback [OF this] have
    f: "feedback_of st0 = feedback_of (initial_state k meta_lookup)"
       "rs_next_uuid (initial_state k meta_lookup) \<le> rs_next_uuid st0"
    by simp_all
  show "feedback_wf uuid4 st0"
    by (rule feedback_wf_next_mono [OF feedback_wf_initial f])
  show "\<forall>sub. feedback_of st0 sub = []"
    by (simp add: f(1) feedback_of_initial)
qed

lemma restamped_run:
  "generate_writing_batch counting_uuid4 (example_payload 2) (Inr example_writer_batch)
     example_critics example_implementers = Inr restamped_result"
  by (simp add: writing_defs example_defs restamped_result_def Let_def numeral_2_eq_2)

text \<open>
  C2 as stated fails in its last part: an implementer that reports an item again, here in
  the second cycle, has it stamped again. The snapshot of the first implementer iteration
  shows item 2 addressed in iteration 4, that of the second shows it addressed in
  iteration 7.
\<close>

theorem feedback_restamped_counterexample:
  "generate_writing_batch counting_uuid4 (example_payload 2) (Inr example_writer_batch)
     example_critics example_implementers = Inr restamped_result \<and>
   map it_feedback (st_iterations (hd (wb_subchapters (wr_batch restamped_result)))) =
     [[],
      [example_feedback 2 False None],
      [example_feedback 2 True (Some 4)],
      [example_feedback 5 False None],
      [example_feedback 2 True (Some 7), example_feedback 5 False None]]"
  using restamped_run
  by (simp add: restamped_result_def example_writer_iteration_def example_critic_iteration_def
      example_implementer_iteration_def)

lemma inj_counting_uuid4: "inj counting_uuid4"
  by (simp add: inj_def counting_uuid4_def)

lemma example_state_wf: "feedback_wf counting_uuid4 example_state"
  unfolding feedback_wf_def
  by (auto simp: feedback_of_def example_state_def example_feedback_def counting_uuid4_def
      split: if_splits)

lemma example_critic_pass:
  "\<exists>st1. critic_pass counting_uuid4 0 1 WRITING_CRITIC_II example_critique_batch example_state = Inr st1"
  by (simp add: writing_defs example_defs example_state_def Let_def)

lemma example_implement_entry:
  "\<exists>st2. implement_entry counting_uuid4 0 0 WRITING_IMPLEMENTATION_I example_entry example_state = Inr st2"
  by (simp add: writing_defs example_defs example_state_def example_entry_def Let_def)

lemma example_run_cycles:
  "\<exists>st3. run_cycles counting_uuid4 0 example_critics example_implementers 1 1 example_state = Inr st3"
  by (simp add: writing_defs example_defs example_state_def Let_def)

lemma example_writer_pass:
  "\<exists>st0. writer_pass counting_uuid4 0 example_writer_batch
           (initial_state 1 (build_meta_lookup (wp_subchapters (example_payload 1)) [])) = Inr st0"
  by (simp add: writing_defs example_defs Let_def)

theorem feedback_lifecycle_witness:
  "inj counting_uuid4 \<and> feedback_wf counting_uuid4 example_state \<and>
   (\<exists>st1. critic_pass counting_uuid4 0 1 WRITING_CRITIC_II example_critique_batch example_state
            = Inr st1 \<and>
          critic_created counting_uuid4 example_state st1 \<and> feedback_wf counting_uuid4 st1) \<and>
   (\<exists>st2. implement_entry counting_uuid4 0 0 WRITING_IMPLEMENTATION_I example_entry example_state
            = Inr st2 \<and>
          implementer_resolved WRITING_IMPLEMENTATION_I example_entry example_state st2 \<and>
          feedback_wf counting_uuid4 st2) \<and>
   (\<exists>st3. run_cycles counting_uuid4 0 example_critics example_implementers 1 1 example_state
            = Inr st3 \<and>
          feedback_persists (reported_ids example_implementers 1 1) example_state st3 \<and>
          feedback_wf counting_uuid4 st3) \<and>
   (\<exists>st0. writer_pass counting_uuid4 0 example_writer_batch
            (initial_state 1 (build_meta_lookup (wp_subchapters (example_payload 1)) [])) = Inr st0 \<and>
          feedback_wf counting_uuid4 st0 \<and> (\<forall>sub. feedback_of st0 sub = []))"
proof -
  from example_critic_pass obtain st1 where
    a: "critic_pass counting_uuid4 0 1 WRITING_CRITIC_II example_critique_batch example_state = Inr st1" ..
  from example_implement_entry obtain st2 where
    b: "implement_entry counting_uuid4 0 0 WRITING_IMPLEMENTATION_I example_entry example_state = Inr st2" ..
  from example_run_cycles obtain st3 where
    c: "run_cycles counting_uuid4 0 example_critics example_implementers 1 1 example_state = Inr st3" ..
  from example_writer_pass obtain st0 where
    d: "writer_pass counting_uuid4 0 example_writer_batch
           (initial_state 1 (build_meta_lookup (wp_subchapters (example_payload 1)) [])) = Inr st0" ..
  from feedback_lifecycle [OF inj_counting_uuid4 example_state_wf,
      where p = 0 and c = 1 and rl = WRITING_CRITIC_II and cb = example_critique_batch
        and ?st1.0 = st1 and c' = 0 and rl' = WRITING_IMPLEMENTATION_I and entry = example_entry
        and ?st2.0 = st2 and critics = example_critics and implementers = example_implementers
        and i = 1 and n = 1 and ?st3.0 = st3 and wb = example_writer_batch and k = 1
        and meta_lookup = "build_meta_lookup (wp_subchapters (example_payload 1)) []"
        and ?st0.0 = st0]
    a b c d inj_counting_uuid4 example_state_wf
  show ?thesis by blast
qed

section \<open>Creative guidelines: final metadata\<close>

text \<open>
  What line 112 makes of a parsed final batch: the request's project id when it is not
  empty, else the id the model returned, on the batch and on each guideline; the target
  version on both; every guideline final and created by the final creative director;
  readiness ready; everything else as the model returned it.
\<close>

lemma finish_guidelines_stamps:
  "finish_guidelines payload final_batch =
     final_batch
       \<lparr> gb_project_id :=
           (if gp_project_id payload \<noteq> [] then Id_text (gp_project_id payload)
            else gb_project_id final_batch),
         gb_version := resolve_target_version (gp_target_version payload),
         gb_readiness := Readiness_ready,
         gb_guidelines :=
           map (\<lambda>guideline.
                  guideline
                    \<lparr> cg_project_id :=
                        (if gp_project_id payload \<noteq> [] then Id_text (gp_project_id payload)
                         else cg_project_id guideline),
                      cg_version := resolve_target_version (gp_target_version payload),
                      cg_status := Guideline_final,
                      cg_created_by := CREATIVE_DIRECTOR_FINAL \<rparr>)
               (gb_guidelines final_batch) \<rparr>"
  by (simp add: finish_guidelines_def ensure_final_metadata_def project_id_or_def Let_def)

text \<open>
  That line is never reached. As written, the function ends in TypeError at its first
  request, whatever the payload and whatever the provider would answer.
\<close>

lemma generate_creative_guidelines_raises:
  "generate_creative_guidelines payload proposal_outcome critique_outcome final_outcome =
     Inl TypeError"
  by (simp add: generate_creative_guidelines_def call_request_batch_def)

text \<open>
  C8. The claim describes the batch of a successful run of the guidelines stage. The code
  has no such run: for the request of project \<^verbatim>\<open>p-1\<close> with target version 3 and a provider
  whose three answers parse, \<^verbatim>\<open>generate_creative_guidelines\<close> raises TypeError at line 65 and
  returns no batch, where the claim has it return the final batch stamped with project
  \<^verbatim>\<open>p-1\<close>, version 3, status final and readiness ready.
\<close>

theorem guidelines_run_raises:
  "generate_creative_guidelines \<lparr> gp_project_id = ''p-1'', gp_target_version = Some 3 \<rparr>
     (Inr echoed_batch) (Inr ''sharpen the objectives'') (Inr echoed_batch) = Inl TypeError \<and>
   finish_guidelines \<lparr> gp_project_id = ''p-1'', gp_target_version = Some 3 \<rparr> echoed_batch =
     \<lparr> gb_project_id = Id_text ''p-1'', gb_version = 3, gb_summary = None,
       gb_readiness = Readiness_ready,
       gb_guidelines =
         [\<lparr> cg_id = 1, cg_project_id = Id_text ''p-1'', cg_subchapter_id = 100,
            cg_objectives = [''open with the anecdote''], cg_guidance = ''keep it short'',
            cg_status = Guideline_final, cg_created_by = CREATIVE_DIRECTOR_FINAL,
            cg_version = 3 \<rparr>] \<rparr>"
  by (simp add: generate_creative_guidelines_def call_request_batch_def finish_guidelines_def
      ensure_final_metadata_def project_id_or_def resolve_target_version_def echoed_batch_def
      echoed_guideline_def)

section \<open>Response cache: the cache key\<close>

lemma cache_get_limit [simp]:
  "cache_get ctx (cache \<lparr> sc_prompt_limit := l \<rparr>) key =
     (fst (cache_get ctx cache key), snd (cache_get ctx cache key) \<lparr> sc_prompt_limit := l \<rparr>)"
  by (simp add: cache_get_def split: option.splits prod.splits)








end
